theory Spec2Isabelle
  imports Complex_Main
begin

section \<open>Retail analytics pipeline: the cleaning stage of \<^verbatim>\<open>data_pipeline.py\<close>\<close>

text \<open>
  The three cleaners \<^verbatim>\<open>clean_sales_fact\<close>, \<^verbatim>\<open>clean_customer_clv\<close> and
  \<^verbatim>\<open>clean_rfm\<close> are sequences of pandas calls on a dataframe. A dataframe is modelled
  as the list of its rows (a record per row, in row order), a nullable cell as an
  \<open>option\<close> (\<open>None\<close> is NaN, NaT or None), a float64 column as exact rationals (the
  rounding of floating point is not modelled), and an exception as the \<open>Inl\<close> branch of a
  sum. Columns have the dtypes the extraction queries give them: dates, numbers and text.

  The pandas and numpy operations the cleaners call are modelled as functions on columns
  (lists of cells) or on single cells. The cleaners that fill nulls take the pandas major
  version as a parameter, because the chained \<^verbatim>\<open>df[col].fillna(v, inplace=True)\<close> reaches the
  frame on pandas 1.x and 2.x and does not on pandas 3.
\<close>

subsection \<open>Errors\<close>

datatype error = ValueError string

fun bind_err :: "error + 'a \<Rightarrow> ('a \<Rightarrow> error + 'b) \<Rightarrow> error + 'b" where
  "bind_err (Inl e) f = Inl e"
| "bind_err (Inr x) f = f x"

subsection \<open>Column operations of pandas and numpy\<close>

text \<open>\<^verbatim>\<open>Series.dropna()\<close>: the non-null cells, in order.\<close>

fun dropna :: "'a option list \<Rightarrow> 'a list" where
  "dropna [] = []"
| "dropna (None # xs) = dropna xs"
| "dropna (Some x # xs) = x # dropna xs"

text \<open>\<^verbatim>\<open>Series.fillna(v)\<close> on one cell; \<open>v\<close> may itself be NaN (\<open>None\<close>).\<close>

fun fillna :: "'a option \<Rightarrow> 'a option \<Rightarrow> 'a option" where
  "fillna v None = v"
| "fillna v (Some x) = Some x"

text \<open>
  The cleaners fill a column with the chained call \<^verbatim>\<open>df[col].fillna(v, inplace=True)\<close>.
  What that does to the frame depends on the pandas major version, and the repository pins
  none. On pandas 1.x and 2.x the selected column is a view cached on the frame, and the
  fill reaches the frame. On pandas 3 (copy-on-write) the selected column is a temporary
  object, the fill changes only that, and the frame keeps its nulls. Nothing else the
  cleaners call differs between the versions.
\<close>

datatype pandas_version = Pandas2 | Pandas3

fun fillna_inplace :: "pandas_version \<Rightarrow> 'a option \<Rightarrow> 'a option \<Rightarrow> 'a option" where
  "fillna_inplace Pandas2 v c = fillna v c"
| "fillna_inplace Pandas3 v c = c"

text \<open>
  \<^verbatim>\<open>Series.quantile(q)\<close> with the default linear interpolation, on the non-null values:
  with \<open>n\<close> values sorted ascending, the position is \<open>h = (n - 1) * q\<close> and the result
  interpolates between the values at \<open>\<lfloor>h\<rfloor>\<close> and \<open>\<lfloor>h\<rfloor> + 1\<close>. On no values the
  result is NaN. \<open>interpolate\<close> is only ever applied to a sorted list that is not empty
  and to \<open>q\<close> between 0 and 1, where both indices are in range.
\<close>

definition interpolate :: "rat \<Rightarrow> rat list \<Rightarrow> rat" where
  "interpolate q s =
     (let h = of_nat (length s - 1) * q;
          lo = nat \<lfloor>h\<rfloor>;
          hi = min (lo + 1) (length s - 1);
          frac = h - of_nat lo
      in s ! lo + (s ! hi - s ! lo) * frac)"

definition quantile :: "rat \<Rightarrow> rat list \<Rightarrow> rat option" where
  "quantile q xs = (if xs = [] then None else Some (interpolate q (sort xs)))"

text \<open>\<^verbatim>\<open>Series.median()\<close>: the 0.5 quantile of the non-null values.\<close>

definition median :: "rat option list \<Rightarrow> rat option" where
  "median col = quantile (1 / 2) (dropna col)"

text \<open>\<^verbatim>\<open>algos.unique\<close>: the distinct values in order of first appearance.\<close>

fun unique_acc :: "'a list \<Rightarrow> 'a list \<Rightarrow> 'a list" where
  "unique_acc seen [] = []"
| "unique_acc seen (x # xs) =
     (if x \<in> set seen then unique_acc seen xs else x # unique_acc (x # seen) xs)"

definition unique :: "'a list \<Rightarrow> 'a list" where
  "unique xs = unique_acc [] xs"

text \<open>
  \<^verbatim>\<open>bins.searchsorted(x, side='left')\<close> on ascending edges: the number of edges
  strictly below \<open>x\<close>, so that \<open>bins[i-1] < x <= bins[i]\<close>.
\<close>

definition searchsorted_left :: "rat list \<Rightarrow> rat \<Rightarrow> nat" where
  "searchsorted_left bins x = length (filter (\<lambda>b. b < x) bins)"

datatype duplicates = Raise | Drop

text \<open>
  \<^verbatim>\<open>_bins_to_cuts\<close> of \<^verbatim>\<open>pandas/core/reshape/tile.py\<close> with \<^verbatim>\<open>right=True\<close> and a list
  of labels: duplicate edges raise or are dropped; each value gets the index of its
  right-closed bin (index 1 for the lowest edge when \<^verbatim>\<open>include_lowest\<close>); the number of
  labels must be the number of bins; a null value or a value outside all bins gets no
  label.
\<close>

definition bin_id :: "rat list \<Rightarrow> bool \<Rightarrow> rat \<Rightarrow> nat" where
  "bin_id bins include_lowest x =
     (if include_lowest \<and> bins \<noteq> [] \<and> x = hd bins then 1 else searchsorted_left bins x)"

definition take_label :: "rat list \<Rightarrow> 'l list \<Rightarrow> bool \<Rightarrow> rat option \<Rightarrow> 'l option" where
  "take_label bins labels include_lowest c =
     (case c of
        None \<Rightarrow> None
      | Some x \<Rightarrow>
          (let i = bin_id bins include_lowest x
           in if i = length bins \<or> i = 0 then None else Some (labels ! (i - 1))))"

definition bins_to_cuts ::
  "rat option list \<Rightarrow> rat list \<Rightarrow> 'l list \<Rightarrow> bool \<Rightarrow> duplicates \<Rightarrow> error + 'l option list" where
  "bins_to_cuts x bins labels include_lowest dups =
     (let unique_bins = unique bins;
          shrink = (length unique_bins < length bins \<and> length bins \<noteq> 2)
      in if shrink \<and> dups = Raise then Inl (ValueError ''Bin edges must be unique'')
         else let bins' = (if shrink then unique_bins else bins)
              in if \<not> distinct labels then Inl (ValueError ''labels must be unique if ordered=True'')
                 else if length labels \<noteq> length bins' - 1
                 then Inl (ValueError ''Bin labels must be one fewer than the number of bin edges'')
                 else Inr (map (take_label bins' labels include_lowest) x))"

text \<open>
  \<^verbatim>\<open>pd.qcut(x, q, labels, duplicates)\<close>: the edges are the quantiles \<open>0, 1/q, \<dots>, 1\<close> of the
  non-null values, then \<^verbatim>\<open>_bins_to_cuts\<close> with \<^verbatim>\<open>include_lowest=True\<close>. With no non-null
  value every edge is NaN and the five NaN edges collapse to one.
\<close>

definition qcut_edges :: "rat list \<Rightarrow> nat \<Rightarrow> rat list" where
  "qcut_edges vals q = map (\<lambda>k. interpolate (of_nat k / of_nat q) (sort vals)) [0..<q + 1]"

definition qcut ::
  "rat option list \<Rightarrow> nat \<Rightarrow> 'l list \<Rightarrow> duplicates \<Rightarrow> error + 'l option list" where
  "qcut x q labels dups =
     (if dropna x = [] then
        (let shrink = (1 < q + 1 \<and> q + 1 \<noteq> 2);
             n_edges = (if shrink then 1 else q + 1)
         in if shrink \<and> dups = Raise then Inl (ValueError ''Bin edges must be unique'')
            else if \<not> distinct labels
            then Inl (ValueError ''labels must be unique if ordered=True'')
            else if length labels \<noteq> n_edges - 1
            then Inl (ValueError ''Bin labels must be one fewer than the number of bin edges'')
            else Inr (map (\<lambda>c. None) x))
      else bins_to_cuts x (qcut_edges (dropna x) q) labels True dups)"

text \<open>
  \<^verbatim>\<open>pd.cut(x, bins, labels)\<close> with a list of edges and the defaults \<^verbatim>\<open>right=True\<close>,
  \<^verbatim>\<open>include_lowest=False\<close>, \<^verbatim>\<open>duplicates='raise'\<close>: the edges must ascend.
\<close>

definition cut :: "rat option list \<Rightarrow> rat list \<Rightarrow> 'l list \<Rightarrow> error + 'l option list" where
  "cut x bins labels =
     (if \<not> sorted bins then Inl (ValueError ''bins must increase monotonically.'')
      else bins_to_cuts x bins labels False Raise)"

text \<open>
  \<^verbatim>\<open>Series.rank(method='first')\<close>: a non-null value's rank is one more than the number of
  smaller values plus the number of equal values in earlier rows; a null keeps NaN.
\<close>

definition rank_first :: "rat option list \<Rightarrow> rat option list" where
  "rank_first col =
     map (\<lambda>i. case col ! i of
                 None \<Rightarrow> None
               | Some v \<Rightarrow>
                   Some (of_nat (1 + length (filter (\<lambda>w. w < v) (dropna col))
                                   + length (filter (\<lambda>w. w = v) (dropna (take i col))))))
         [0..<length col]"

text \<open>\<^verbatim>\<open>.astype(int)\<close> on the categorical result: a NaN entry raises.\<close>

fun astype_int :: "int option list \<Rightarrow> error + int list" where
  "astype_int [] = Inr []"
| "astype_int (None # cs) = Inl (ValueError ''Cannot convert float NaN to integer'')"
| "astype_int (Some v # cs) = bind_err (astype_int cs) (\<lambda>vs. Inr (v # vs))"

text \<open>
  \<^verbatim>\<open>pd.to_datetime\<close> on a column: a date value or a null (NaT) is kept, anything that
  does not parse raises.
\<close>

datatype date_cell = DateVal (year: nat) (month: nat) (day: nat) | NaT | Unparseable string

fun to_datetime :: "date_cell list \<Rightarrow> error + date_cell list" where
  "to_datetime [] = Inr []"
| "to_datetime (Unparseable s # cs) = Inl (ValueError ''Unknown datetime string format'')"
| "to_datetime (c # cs) = bind_err (to_datetime cs) (\<lambda>ds. Inr (c # ds))"

subsection \<open>The customer lifetime value table\<close>

text \<open>
  One row per customer. \<open>clv_others\<close> holds the columns \<^verbatim>\<open>clean_customer_clv\<close> neither
  reads nor writes (customer id and name, segment, city, state, gender, age, order count,
  total and average revenue).
\<close>

record 'o clv_row =
  first_order_date :: date_cell
  last_order_date :: date_cell
  customer_lifespan_days :: "rat option"
  clv_estimate :: "rat option"
  clv_others :: 'o

record 'o clv_tiered = "'o clv_row" +
  clv_tier :: "string option"

definition clv_labels :: "string list" where
  "clv_labels = [''Bronze'', ''Silver'', ''Gold'', ''Platinum'']"

definition clean_customer_clv ::
  "pandas_version \<Rightarrow> 'o clv_row list \<Rightarrow> error + 'o clv_tiered list" where
  "clean_customer_clv pd df0 =
     bind_err (to_datetime (map first_order_date df0)) (\<lambda>firsts.
     bind_err (to_datetime (map last_order_date df0)) (\<lambda>lasts.
       let df1 = map2 (\<lambda>r d. r\<lparr>first_order_date := d\<rparr>) df0 firsts;
           df2 = map2 (\<lambda>r d. r\<lparr>last_order_date := d\<rparr>) df1 lasts;
           df3 = map (\<lambda>r. r\<lparr>clv_estimate :=
                               fillna_inplace pd (Some 0) (clv_estimate r)\<rparr>) df2;
           df4 = map (\<lambda>r. r\<lparr>customer_lifespan_days :=
                               fillna_inplace pd (Some 0) (customer_lifespan_days r)\<rparr>) df3
       in bind_err (qcut (map clv_estimate df4) 4 clv_labels Drop) (\<lambda>tiers.
            Inr (map2 (\<lambda>r t. clv_row.extend r (clv_tiered.fields t)) df4 tiers))))"

subsection \<open>The RFM table\<close>

text \<open>
  One row per customer. \<open>rfm_others\<close> holds the columns \<^verbatim>\<open>clean_rfm\<close> neither reads nor
  writes (customer id and name, segment).
\<close>

record 'o rfm_row =
  recency_days :: "int option"
  frequency :: "int option"
  monetary :: "rat option"
  rfm_others :: 'o

record 'o rfm_scored = "'o rfm_row" +
  R_score :: int
  F_score :: int
  M_score :: int
  RFM_score :: int
  rfm_segment :: string

definition rfm_label :: "int \<Rightarrow> string" where
  "rfm_label score =
     (if score \<ge> 10 then ''Champions''
      else if score \<ge> 8 then ''Loyal Customers''
      else if score \<ge> 6 then ''Potential Loyalists''
      else if score \<ge> 4 then ''At Risk''
      else ''Lost Customers'')"

definition int_col :: "int option list \<Rightarrow> rat option list" where
  "int_col col = map (map_option of_int) col"

definition clean_rfm :: "'o rfm_row list \<Rightarrow> error + 'o rfm_scored list" where
  "clean_rfm df =
     bind_err (bind_err (qcut (int_col (map recency_days df)) 4 [4, 3, 2, 1] Drop) astype_int)
       (\<lambda>R.
     bind_err (bind_err (qcut (rank_first (int_col (map frequency df))) 4 [1, 2, 3, 4] Raise)
                 astype_int)
       (\<lambda>F.
     bind_err (bind_err (qcut (map monetary df) 4 [1, 2, 3, 4] Drop) astype_int)
       (\<lambda>M.
       Inr (map (\<lambda>i. let score = R ! i + F ! i + M ! i
                      in rfm_row.extend (df ! i)
                           (rfm_scored.fields (R ! i) (F ! i) (M ! i) score (rfm_label score)))
                [0..<length df]))))"

subsection \<open>Text normalisation\<close>

text \<open>
  \<^verbatim>\<open>str.strip()\<close> and \<^verbatim>\<open>str.title()\<close> of Python, on ASCII text: the whitespace
  characters are the codes 9 to 13, 28 to 31 and 32; \<^verbatim>\<open>title\<close> upper-cases a letter that
  follows a character without case (or starts the string) and lower-cases a letter that
  follows a letter. Characters outside ASCII are treated as neither whitespace nor letters.
\<close>

definition upper_chars :: string where
  "upper_chars = ''ABCDEFGHIJKLMNOPQRSTUVWXYZ''"

definition lower_chars :: string where
  "lower_chars = ''abcdefghijklmnopqrstuvwxyz''"

definition is_space :: "char \<Rightarrow> bool" where
  "is_space c = (of_char c \<in> set [9, 10, 11, 12, 13, 28, 29, 30, 31, 32 :: nat])"

definition is_cased :: "char \<Rightarrow> bool" where
  "is_cased c = (c \<in> set upper_chars \<or> c \<in> set lower_chars)"

definition to_upper :: "char \<Rightarrow> char" where
  "to_upper c = (case map_of (zip lower_chars upper_chars) c of Some u \<Rightarrow> u | None \<Rightarrow> c)"

definition to_lower :: "char \<Rightarrow> char" where
  "to_lower c = (case map_of (zip upper_chars lower_chars) c of Some l \<Rightarrow> l | None \<Rightarrow> c)"

definition strip :: "string \<Rightarrow> string" where
  "strip s = rev (dropWhile is_space (rev (dropWhile is_space s)))"

fun title_from :: "bool \<Rightarrow> string \<Rightarrow> string" where
  "title_from previous_is_cased [] = []"
| "title_from previous_is_cased (c # cs) =
     (if previous_is_cased then to_lower c else to_upper c) # title_from (is_cased c) cs"

definition title :: "string \<Rightarrow> string" where
  "title s = title_from False s"

text \<open>\<^verbatim>\<open>col.str.strip().str.title()\<close> on one cell; a null stays null.\<close>

definition strip_title :: "string option \<Rightarrow> string option" where
  "strip_title c = map_option (title \<circ> strip) c"

subsection \<open>The sales fact table\<close>

text \<open>
  One row per order line. \<open>sales_others\<close> holds the columns \<^verbatim>\<open>clean_sales_fact\<close>
  neither reads nor writes (order, customer and product ids and names, the calendar parts
  of the order date, city, state, brand, prices, cost and profit); they take part in the
  comparison of whole rows by \<^verbatim>\<open>drop_duplicates\<close>.
\<close>

record 'o sales_row =
  order_date :: date_cell
  ship_date :: date_cell
  ship_mode :: "string option"
  region :: "string option"
  shipping_days :: "rat option"
  gender :: "string option"
  age :: "int option"
  segment :: "string option"
  category :: "string option"
  sub_category :: "string option"
  quantity :: "int option"
  discount :: "rat option"
  revenue :: "rat option"
  profit_margin_pct :: "rat option"
  order_status :: "string option"
  sales_others :: 'o

record 'o sales_clean = "'o sales_row" +
  discount_pct :: "rat option"
  age_group :: "string option"
  is_returned :: int
  month_year :: "(nat \<times> nat) option"

text \<open>\<^verbatim>\<open>df.drop_duplicates()\<close>: the first of each group of equal rows is kept.\<close>

definition drop_duplicates :: "'r list \<Rightarrow> 'r list" where
  "drop_duplicates df = unique df"

text \<open>The row masks \<^verbatim>\<open>df['revenue'] >= 0\<close> and \<^verbatim>\<open>df['quantity'] > 0\<close>: false on a null.\<close>

definition revenue_ok :: "('o, 'z) sales_row_scheme \<Rightarrow> bool" where
  "revenue_ok r = (case revenue r of None \<Rightarrow> False | Some v \<Rightarrow> v \<ge> 0)"

definition quantity_ok :: "('o, 'z) sales_row_scheme \<Rightarrow> bool" where
  "quantity_ok r = (case quantity r of None \<Rightarrow> False | Some n \<Rightarrow> n > 0)"

text \<open>
  \<^verbatim>\<open>Series.clip(upper=cap)\<close> on one cell: a NaN bound clips nothing, a null stays null.
\<close>

fun clip_upper :: "rat option \<Rightarrow> rat option \<Rightarrow> rat option" where
  "clip_upper (Some cap) (Some v) = Some (min v cap)"
| "clip_upper cap v = v"

text \<open>\<^verbatim>\<open>round(1)\<close> of numpy: to one decimal, a tie going to the even neighbour.\<close>

definition round_half_even :: "rat \<Rightarrow> int" where
  "round_half_even x =
     (let f = \<lfloor>x\<rfloor>; r = x - of_int f
      in if r < 1 / 2 then f else if r > 1 / 2 then f + 1 else if even f then f else f + 1)"

definition round1 :: "rat \<Rightarrow> rat" where
  "round1 x = of_int (round_half_even (x * 10)) / 10"

definition age_bins :: "rat list" where
  "age_bins = [0, 25, 35, 45, 60, 100]"

definition age_labels :: "string list" where
  "age_labels = [''18-25'', ''26-35'', ''36-45'', ''46-60'', ''60+'']"

text \<open>\<^verbatim>\<open>dt.to_period('M')\<close>: the year and month of a date, none for NaT.\<close>

fun to_period_M :: "date_cell \<Rightarrow> (nat \<times> nat) option" where
  "to_period_M (DateVal y m d) = Some (y, m)"
| "to_period_M c = None"

text \<open>Steps 3.1 to 3.3: parse the dates, drop duplicate rows, filter.\<close>

definition filter_rows :: "'o sales_row list \<Rightarrow> error + 'o sales_row list" where
  "filter_rows df0 =
     bind_err (to_datetime (map order_date df0)) (\<lambda>order_dates.
     bind_err (to_datetime (map ship_date df0)) (\<lambda>ship_dates.
       let df1 = map2 (\<lambda>r d. r\<lparr>order_date := d\<rparr>) df0 order_dates;
           df2 = map2 (\<lambda>r d. r\<lparr>ship_date := d\<rparr>) df1 ship_dates;
           df3 = drop_duplicates df2;
           df4 = filter revenue_ok df3
       in Inr (filter quantity_ok df4)))"

text \<open>Step 3.4: fill the nulls of \<^verbatim>\<open>discount\<close>, then of \<^verbatim>\<open>shipping_days\<close>.\<close>

definition handle_nulls :: "pandas_version \<Rightarrow> 'o sales_row list \<Rightarrow> 'o sales_row list" where
  "handle_nulls pd df =
     (let df1 = map (\<lambda>r. r\<lparr>discount := fillna_inplace pd (Some 0) (discount r)\<rparr>) df;
          med = median (map shipping_days df1)
      in map (\<lambda>r. r\<lparr>shipping_days := fillna_inplace pd med (shipping_days r)\<rparr>) df1)"

text \<open>Step 3.5: cap \<^verbatim>\<open>profit_margin_pct\<close> at its 99th percentile.\<close>

definition cap_outliers :: "'o sales_row list \<Rightarrow> 'o sales_row list" where
  "cap_outliers df =
     (let cap = quantile (99 / 100) (dropna (map profit_margin_pct df))
      in map (\<lambda>r. r\<lparr>profit_margin_pct := clip_upper cap (profit_margin_pct r)\<rparr>) df)"

text \<open>Step 3.6: the loop over the seven text columns, in the order of the source.\<close>

definition standardize_text :: "'o sales_row \<Rightarrow> 'o sales_row" where
  "standardize_text r =
     r\<lparr>gender := strip_title (gender r),
       segment := strip_title (segment r),
       region := strip_title (region r),
       ship_mode := strip_title (ship_mode r),
       category := strip_title (category r),
       sub_category := strip_title (sub_category r),
       order_status := strip_title (order_status r)\<rparr>"

text \<open>Step 3.7: the derived columns.\<close>

definition add_derived :: "'o sales_row list \<Rightarrow> error + 'o sales_clean list" where
  "add_derived df =
     bind_err (cut (int_col (map age df)) age_bins age_labels) (\<lambda>groups.
       Inr (map2 (\<lambda>r g. sales_row.extend r
                    (sales_clean.fields
                       (map_option (\<lambda>d. round1 (d * 100)) (discount r))
                       g
                       (if order_status r = Some ''Returned'' then 1 else 0)
                       (to_period_M (order_date r))))
              df groups))"

definition clean_sales_fact ::
  "pandas_version \<Rightarrow> 'o sales_row list \<Rightarrow> error + 'o sales_clean list" where
  "clean_sales_fact pd df =
     bind_err (filter_rows df) (\<lambda>df1.
       add_derived (map standardize_text (cap_outliers (handle_nulls pd df1))))"

subsection \<open>The stable rank, as specified\<close>

text \<open>
  The rank that a rank transform with ties broken by row order gives row \<open>i\<close> of a column
  without nulls, written out from its description and not from \<open>rank_first\<close>: one, plus
  the number of rows with a smaller value, plus the number of earlier rows with the same
  value. \<open>F_score\<close> is compared against it.
\<close>

definition stable_rank :: "int list \<Rightarrow> nat \<Rightarrow> nat" where
  "stable_rank fs i =
     1 + length (filter (\<lambda>w. w < fs ! i) fs) + length (filter (\<lambda>w. w = fs ! i) (take i fs))"

subsection \<open>Sample tables\<close>

text \<open>Small concrete tables on which the cleaners are run.\<close>

definition rfm_sample :: "string rfm_row list" where
  "rfm_sample =
     [\<lparr>recency_days = Some 10, frequency = Some 5, monetary = Some 400, rfm_others = ''C1''\<rparr>,
      \<lparr>recency_days = Some 20, frequency = Some 5, monetary = Some 300, rfm_others = ''C2''\<rparr>,
      \<lparr>recency_days = Some 30, frequency = Some 9, monetary = Some 200, rfm_others = ''C3''\<rparr>,
      \<lparr>recency_days = Some 40, frequency = Some 1, monetary = Some 100, rfm_others = ''C4''\<rparr>]"

definition rfm_sample_scored :: "string rfm_scored list" where
  "rfm_sample_scored =
     [\<lparr>recency_days = Some 10, frequency = Some 5, monetary = Some 400, rfm_others = ''C1'',
       R_score = 4, F_score = 2, M_score = 4, RFM_score = 10, rfm_segment = ''Champions''\<rparr>,
      \<lparr>recency_days = Some 20, frequency = Some 5, monetary = Some 300, rfm_others = ''C2'',
       R_score = 3, F_score = 3, M_score = 3, RFM_score = 9, rfm_segment = ''Loyal Customers''\<rparr>,
      \<lparr>recency_days = Some 30, frequency = Some 9, monetary = Some 200, rfm_others = ''C3'',
       R_score = 2, F_score = 4, M_score = 2, RFM_score = 8, rfm_segment = ''Loyal Customers''\<rparr>,
      \<lparr>recency_days = Some 40, frequency = Some 1, monetary = Some 100, rfm_others = ''C4'',
       R_score = 1, F_score = 1, M_score = 1, RFM_score = 3, rfm_segment = ''Lost Customers''\<rparr>]"

definition rfm_tied :: "string rfm_row list" where
  "rfm_tied =
     [\<lparr>recency_days = Some 10, frequency = Some 2, monetary = Some 100, rfm_others = ''C1''\<rparr>,
      \<lparr>recency_days = Some 20, frequency = Some 2, monetary = Some 100, rfm_others = ''C2''\<rparr>,
      \<lparr>recency_days = Some 30, frequency = Some 2, monetary = Some 200, rfm_others = ''C3''\<rparr>,
      \<lparr>recency_days = Some 40, frequency = Some 2, monetary = Some 300, rfm_others = ''C4''\<rparr>,
      \<lparr>recency_days = Some 50, frequency = Some 2, monetary = Some 400, rfm_others = ''C5''\<rparr>,
      \<lparr>recency_days = Some 60, frequency = Some 2, monetary = Some 500, rfm_others = ''C6''\<rparr>]"

definition rfm_tied_scored :: "string rfm_scored list" where
  "rfm_tied_scored =
     [\<lparr>recency_days = Some 10, frequency = Some 2, monetary = Some 100, rfm_others = ''C1'',
       R_score = 4, F_score = 1, M_score = 1, RFM_score = 6,
       rfm_segment = ''Potential Loyalists''\<rparr>,
      \<lparr>recency_days = Some 20, frequency = Some 2, monetary = Some 100, rfm_others = ''C2'',
       R_score = 4, F_score = 1, M_score = 1, RFM_score = 6,
       rfm_segment = ''Potential Loyalists''\<rparr>,
      \<lparr>recency_days = Some 30, frequency = Some 2, monetary = Some 200, rfm_others = ''C3'',
       R_score = 3, F_score = 2, M_score = 2, RFM_score = 7,
       rfm_segment = ''Potential Loyalists''\<rparr>,
      \<lparr>recency_days = Some 40, frequency = Some 2, monetary = Some 300, rfm_others = ''C4'',
       R_score = 2, F_score = 3, M_score = 3, RFM_score = 8,
       rfm_segment = ''Loyal Customers''\<rparr>,
      \<lparr>recency_days = Some 50, frequency = Some 2, monetary = Some 400, rfm_others = ''C5'',
       R_score = 1, F_score = 4, M_score = 4, RFM_score = 9,
       rfm_segment = ''Loyal Customers''\<rparr>,
      \<lparr>recency_days = Some 60, frequency = Some 2, monetary = Some 500, rfm_others = ''C6'',
       R_score = 1, F_score = 4, M_score = 4, RFM_score = 9,
       rfm_segment = ''Loyal Customers''\<rparr>]"

text \<open>
  The order of the tier labels, Bronze below Silver below Gold below Platinum, as the
  position of a label in the list passed to \<^verbatim>\<open>pd.qcut\<close>.
\<close>

definition tier_rank :: "string \<Rightarrow> nat" where
  "tier_rank t =
     (if t = ''Bronze'' then 0 else if t = ''Silver'' then 1
      else if t = ''Gold'' then 2 else 3)"

definition clv_sample :: "string clv_row list" where
  "clv_sample =
     [\<lparr>first_order_date = DateVal 2023 1 5, last_order_date = DateVal 2024 6 1,
       customer_lifespan_days = Some 513, clv_estimate = Some 1600, clv_others = ''C1''\<rparr>,
      \<lparr>first_order_date = DateVal 2023 2 1, last_order_date = DateVal 2024 2 1,
       customer_lifespan_days = Some 365, clv_estimate = Some 1200, clv_others = ''C2''\<rparr>,
      \<lparr>first_order_date = DateVal 2024 3 1, last_order_date = DateVal 2024 3 1,
       customer_lifespan_days = None, clv_estimate = None, clv_others = ''C3''\<rparr>,
      \<lparr>first_order_date = DateVal 2023 5 9, last_order_date = DateVal 2024 5 9,
       customer_lifespan_days = Some 366, clv_estimate = Some 800, clv_others = ''C4''\<rparr>,
      \<lparr>first_order_date = NaT, last_order_date = DateVal 2024 1 1,
       customer_lifespan_days = Some 0, clv_estimate = Some 400, clv_others = ''C5''\<rparr>]"

definition clv_sample_tiered :: "string clv_tiered list" where
  "clv_sample_tiered =
     [\<lparr>first_order_date = DateVal 2023 1 5, last_order_date = DateVal 2024 6 1,
       customer_lifespan_days = Some 513, clv_estimate = Some 1600, clv_others = ''C1'',
       clv_tier = Some ''Platinum''\<rparr>,
      \<lparr>first_order_date = DateVal 2023 2 1, last_order_date = DateVal 2024 2 1,
       customer_lifespan_days = Some 365, clv_estimate = Some 1200, clv_others = ''C2'',
       clv_tier = Some ''Gold''\<rparr>,
      \<lparr>first_order_date = DateVal 2024 3 1, last_order_date = DateVal 2024 3 1,
       customer_lifespan_days = Some 0, clv_estimate = Some 0, clv_others = ''C3'',
       clv_tier = Some ''Bronze''\<rparr>,
      \<lparr>first_order_date = DateVal 2023 5 9, last_order_date = DateVal 2024 5 9,
       customer_lifespan_days = Some 366, clv_estimate = Some 800, clv_others = ''C4'',
       clv_tier = Some ''Silver''\<rparr>,
      \<lparr>first_order_date = NaT, last_order_date = DateVal 2024 1 1,
       customer_lifespan_days = Some 0, clv_estimate = Some 400, clv_others = ''C5'',
       clv_tier = Some ''Bronze''\<rparr>]"

definition clv_flat :: "string clv_row list" where
  "clv_flat =
     [\<lparr>first_order_date = DateVal 2024 1 1, last_order_date = DateVal 2024 1 1,
       customer_lifespan_days = Some 0, clv_estimate = Some 500, clv_others = ''C1''\<rparr>,
      \<lparr>first_order_date = DateVal 2024 1 2, last_order_date = DateVal 2024 1 2,
       customer_lifespan_days = Some 0, clv_estimate = Some 500, clv_others = ''C2''\<rparr>,
      \<lparr>first_order_date = DateVal 2024 1 3, last_order_date = DateVal 2024 1 3,
       customer_lifespan_days = Some 0, clv_estimate = Some 500, clv_others = ''C3''\<rparr>,
      \<lparr>first_order_date = DateVal 2024 1 4, last_order_date = DateVal 2024 1 4,
       customer_lifespan_days = Some 0, clv_estimate = Some 500, clv_others = ''C4''\<rparr>]"

definition rfm_flat :: "string rfm_row list" where
  "rfm_flat =
     [\<lparr>recency_days = Some 7, frequency = Some 1, monetary = Some 100, rfm_others = ''C1''\<rparr>,
      \<lparr>recency_days = Some 7, frequency = Some 2, monetary = Some 200, rfm_others = ''C2''\<rparr>,
      \<lparr>recency_days = Some 7, frequency = Some 3, monetary = Some 300, rfm_others = ''C3''\<rparr>,
      \<lparr>recency_days = Some 7, frequency = Some 4, monetary = Some 400, rfm_others = ''C4''\<rparr>]"

definition mk_sale ::
  "string \<Rightarrow> int option \<Rightarrow> rat option \<Rightarrow> rat option \<Rightarrow> rat option \<Rightarrow> rat option \<Rightarrow>
   int option \<Rightarrow> string \<Rightarrow> string sales_row" where
  "mk_sale oid qty rv disc ship margin a status =
     \<lparr>order_date = DateVal 2024 3 5, ship_date = NaT, ship_mode = Some '' first class'',
      region = None, shipping_days = ship, gender = Some ''m'', age = a,
      segment = Some ''consumer'', category = Some ''office supplies'',
      sub_category = Some ''b-c d'', quantity = qty, discount = disc, revenue = rv,
      profit_margin_pct = margin, order_status = Some status, sales_others = oid\<rparr>"

definition sales_sample :: "string sales_row list" where
  "sales_sample =
     [mk_sale ''O1'' (Some 2) (Some 10) None (Some 3) (Some 50) (Some 0) ''RETURNED'',
      mk_sale ''O2'' (Some (- 1)) (Some 10) None (Some 100) (Some 50) (Some 30) ''Completed'',
      mk_sale ''O1'' (Some 2) (Some 10) None (Some 3) (Some 50) (Some 0) ''RETURNED'',
      mk_sale ''O3'' (Some 2) (Some 0) (Some (3 / 20)) None (Some 500) (Some 25) '' returned '',
      mk_sale ''O4'' (Some 1) (Some (- 5)) None (Some 200) (Some 900) (Some 40) ''Completed'',
      mk_sale ''O5'' (Some 2) (Some 1) (Some (1 / 8)) (Some 4) None (Some 101) ''Completed'',
      mk_sale ''O6'' (Some 2) None (Some (1 / 8)) (Some 300) None (Some 30) ''Completed'']"

definition mk_clean ::
  "string \<Rightarrow> rat \<Rightarrow> rat \<Rightarrow> rat \<Rightarrow> rat option \<Rightarrow> int \<Rightarrow> string \<Rightarrow>
   rat \<Rightarrow> string option \<Rightarrow> int \<Rightarrow> string sales_clean" where
  "mk_clean oid rv disc ship margin a status dpct grp ret =
     \<lparr>order_date = DateVal 2024 3 5, ship_date = NaT, ship_mode = Some ''First Class'',
      region = None, shipping_days = Some ship, gender = Some ''M'', age = Some a,
      segment = Some ''Consumer'', category = Some ''Office Supplies'',
      sub_category = Some ''B-C D'', quantity = Some 2, discount = Some disc,
      revenue = Some rv, profit_margin_pct = margin, order_status = Some status,
      sales_others = oid, discount_pct = Some dpct, age_group = grp, is_returned = ret,
      month_year = Some (2024, 3)\<rparr>"

definition sales_sample_clean :: "string sales_clean list" where
  "sales_sample_clean =
     [mk_clean ''O1'' 10 0 3 (Some 50) 0 ''Returned'' 0 None 1,
      mk_clean ''O3'' 0 (3 / 20) (7 / 2) (Some (991 / 2)) 25 ''Returned'' 15 (Some ''18-25'') 1,
      mk_clean ''O5'' 1 (1 / 8) 4 None 101 ''Completed'' (25 / 2) None 0]"

text \<open>
  The tiered sample table as pandas 3 leaves it: the third customer still has no estimate
  and no lifespan, and gets no tier.
\<close>

definition clv_sample_unfilled :: "string clv_tiered list" where
  "clv_sample_unfilled =
     [clv_sample_tiered ! 0,
      clv_sample_tiered ! 1,
      (clv_sample_tiered ! 2)\<lparr>customer_lifespan_days := None, clv_estimate := None,
                                clv_tier := None\<rparr>,
      clv_sample_tiered ! 3,
      clv_sample_tiered ! 4]"

text \<open>
  The cleaned sample table as pandas 3 leaves it: the first kept row still has no discount
  (and so no discount percentage), the second still has no \<open>shipping_days\<close>.
\<close>

definition sales_sample_unfilled :: "string sales_clean list" where
  "sales_sample_unfilled =
     [(sales_sample_clean ! 0)\<lparr>discount := None, discount_pct := None\<rparr>,
      (sales_sample_clean ! 1)\<lparr>shipping_days := None\<rparr>,
      sales_sample_clean ! 2]"

section \<open>Properties of the column operations\<close>

lemma bind_err_Inr_iff: "bind_err m f = Inr y \<longleftrightarrow> (\<exists>x. m = Inr x \<and> f x = Inr y)"
  by (cases m) auto

lemma to_datetime_Inr: "to_datetime cs = Inr ds \<Longrightarrow> ds = cs"
  by (induction cs arbitrary: ds rule: to_datetime.induct) (auto simp: bind_err_Inr_iff)

lemma astype_int_Inr: "astype_int cs = Inr vs \<Longrightarrow> cs = map Some vs"
  by (induction cs arbitrary: vs rule: astype_int.induct) (auto simp: bind_err_Inr_iff)

lemma map2_same: "map2 f xs (map g xs) = map (\<lambda>x. f x (g x)) xs"
  by (induction xs) auto

lemma map2_same3: "map2 f xs (map g (map h (map k xs))) = map (\<lambda>x. f x (g (h (k x)))) xs"
  by (induction xs) auto

lemma fillna_Some: "fillna (Some d) c = Some (case c of None \<Rightarrow> d | Some v \<Rightarrow> v)"
  by (cases c) simp_all

lemma map_Some_dropna: "\<forall>c\<in>set x. c \<noteq> None \<Longrightarrow> map Some (dropna x) = x"
  by (induction x rule: dropna.induct) auto

lemma dropna_map_Some: "dropna (map Some vals) = vals"
  by (induction vals) auto

lemma set_dropna: "set (dropna col) = {x. Some x \<in> set col}"
  by (induction col rule: dropna.induct) auto

lemma set_unique_acc: "set (unique_acc seen xs) = set xs - set seen"
  by (induction xs arbitrary: seen) auto

lemma distinct_unique_acc: "distinct (unique_acc seen xs)"
  by (induction xs arbitrary: seen) (auto simp: set_unique_acc)

lemma length_unique_acc_le: "length (unique_acc seen xs) \<le> length xs"
  by (induction xs arbitrary: seen) (auto simp: le_SucI)

lemma unique_acc_id: "distinct xs \<Longrightarrow> set xs \<inter> set seen = {} \<Longrightarrow> unique_acc seen xs = xs"
  by (induction xs arbitrary: seen) auto

lemma unique_acc_shorter:
  "\<not> (distinct xs \<and> set xs \<inter> set seen = {}) \<Longrightarrow> length (unique_acc seen xs) < length xs"
proof (induction xs arbitrary: seen)
  case Nil
  then show ?case by simp
next
  case (Cons x xs)
  show ?case
  proof (cases "x \<in> set seen")
    case True
    then show ?thesis using length_unique_acc_le [of seen xs] by simp
  next
    case False
    with Cons.prems have "\<not> (distinct xs \<and> set xs \<inter> set (x # seen) = {})" by auto
    from Cons.IH [OF this] False show ?thesis by simp
  qed
qed

lemma unique_distinct: "distinct xs \<Longrightarrow> unique xs = xs"
  by (simp add: unique_def unique_acc_id)

lemma unique_shorter: "\<not> distinct xs \<Longrightarrow> length (unique xs) < length xs"
  by (simp add: unique_def unique_acc_shorter)

lemma set_unique: "set (unique xs) = set xs"
  by (simp add: unique_def set_unique_acc)

lemma distinct_unique: "distinct (unique xs)"
  by (simp add: unique_def distinct_unique_acc)

subsection \<open>Quantiles\<close>

lemma interpolate_0: "interpolate 0 s = s ! 0"
  by (simp add: interpolate_def)

lemma interpolate_1: "interpolate 1 s = s ! (length s - 1)"
  by (simp add: interpolate_def Let_def)

lemma sort_nth_0_le: 
  fixes v :: rat
  assumes "v \<in> set vals" shows "sort vals ! 0 \<le> v"
proof -
  from assms have "v \<in> set (sort vals)" by simp
  then obtain i where "i < length (sort vals)" "sort vals ! i = v"
    by (metis in_set_conv_nth)
  then show ?thesis using sorted_nth_mono [of "sort vals" 0 i] by auto
qed

lemma sort_nth_last_ge: 
  fixes v :: rat
  assumes "v \<in> set vals" shows "v \<le> sort vals ! (length vals - 1)"
proof -
  from assms have "v \<in> set (sort vals)" by simp
  then obtain i where "i < length (sort vals)" "sort vals ! i = v"
    by (metis in_set_conv_nth)
  then show ?thesis using sorted_nth_mono [of "sort vals" i "length vals - 1"] by auto
qed

lemma interpolate_mono:
  assumes "sorted s" and "s \<noteq> []" and "0 \<le> q" and "q \<le> q'" and "q' \<le> 1"
  shows "interpolate q s \<le> interpolate q' s"
proof -
  define m where "m = length s - 1"
  define h where "h = rat_of_nat m * q"
  define h' where "h' = rat_of_nat m * q'"
  define lo where "lo = nat \<lfloor>h\<rfloor>"
  define lo' where "lo' = nat \<lfloor>h'\<rfloor>"
  have m: "m < length s" using assms(2) by (simp add: m_def)
  have h0: "0 \<le> h" using assms(3) by (simp add: h_def)
  have hh': "h \<le> h'" using assms(4) by (simp add: h_def h'_def mult_left_mono)
  have h'm: "h' \<le> rat_of_nat m"
    using assms(5) mult_left_mono [of q' 1 "rat_of_nat m"] by (simp add: h'_def)
  have h'0: "0 \<le> h'" using h0 hh' by simp
  have lo: "rat_of_nat lo \<le> h" "h < rat_of_nat lo + 1"
    using h0 by (simp_all add: lo_def of_nat_nat) linarith+
  have lo': "rat_of_nat lo' \<le> h'" "h' < rat_of_nat lo' + 1"
    using h'0 by (simp_all add: lo'_def of_nat_nat) linarith+
  have lolo': "lo \<le> lo'" using hh' by (simp add: lo_def lo'_def floor_mono nat_mono)
  have "\<lfloor>h'\<rfloor> \<le> \<lfloor>rat_of_nat m\<rfloor>" using h'm by (rule floor_mono)
  then have lo'm: "lo' \<le> m" by (simp add: lo'_def)
  define hi where "hi = min (lo + 1) m"
  define hi' where "hi' = min (lo' + 1) m"
  have ab: "s ! lo \<le> s ! hi" using assms(1) m lolo' lo'm
    by (intro sorted_nth_mono) (auto simp: hi_def)
  have ab': "s ! lo' \<le> s ! hi'" using assms(1) m lo'm
    by (intro sorted_nth_mono) (auto simp: hi'_def)
  have I: "interpolate q s = s ! lo + (s ! hi - s ! lo) * (h - rat_of_nat lo)"
    by (simp add: interpolate_def Let_def m_def h_def lo_def hi_def)
  have I': "interpolate q' s = s ! lo' + (s ! hi' - s ! lo') * (h' - rat_of_nat lo')"
    by (simp add: interpolate_def Let_def m_def h'_def lo'_def hi'_def)
  have up: "interpolate q s \<le> s ! hi"
  proof -
    have "(s ! hi - s ! lo) * (h - rat_of_nat lo) \<le> (s ! hi - s ! lo) * 1"
      using ab lo by (intro mult_left_mono) auto
    then show ?thesis by (simp add: I)
  qed
  have low': "s ! lo' \<le> interpolate q' s"
  proof -
    have "0 \<le> (s ! hi' - s ! lo') * (h' - rat_of_nat lo')"
      using ab' lo' by (intro mult_nonneg_nonneg) auto
    then show ?thesis by (simp add: I')
  qed
  show ?thesis
  proof (cases "lo = lo'")
    case True
    then have "hi = hi'" by (simp add: hi_def hi'_def)
    moreover have "(s ! hi - s ! lo) * (h - rat_of_nat lo) \<le> (s ! hi - s ! lo) * (h' - rat_of_nat lo)"
      using ab hh' by (intro mult_left_mono) auto
    ultimately show ?thesis using True by (simp add: I I')
  next
    case False
    with lolo' have "lo + 1 \<le> lo'" by simp
    with lo'm have "hi \<le> lo'" by (simp add: hi_def)
    then have "s ! hi \<le> s ! lo'" using assms(1) m lo'm by (intro sorted_nth_mono) auto
    with up low' show ?thesis by linarith
  qed
qed

lemma qcut_edges_4:
  "qcut_edges vals 4 =
     [interpolate 0 (sort vals), interpolate (1 / 4) (sort vals), interpolate (1 / 2) (sort vals),
      interpolate (3 / 4) (sort vals), interpolate 1 (sort vals)]"
  by (simp add: qcut_edges_def upt_rec)

lemma qcut_edges_ascending:
  assumes "vals \<noteq> []"
  shows "interpolate 0 (sort vals) \<le> interpolate (1 / 4) (sort vals)"
    and "interpolate (1 / 4) (sort vals) \<le> interpolate (1 / 2) (sort vals)"
    and "interpolate (1 / 2) (sort vals) \<le> interpolate (3 / 4) (sort vals)"
    and "interpolate (3 / 4) (sort vals) \<le> interpolate 1 (sort vals)"
proof -
  have s: "sorted (sort vals)" "sort vals \<noteq> []"
    using assms by (simp, metis set_empty set_sort)
  show "interpolate 0 (sort vals) \<le> interpolate (1 / 4) (sort vals)"
    by (rule interpolate_mono [OF s]) simp_all
  show "interpolate (1 / 4) (sort vals) \<le> interpolate (1 / 2) (sort vals)"
    by (rule interpolate_mono [OF s]) simp_all
  show "interpolate (1 / 2) (sort vals) \<le> interpolate (3 / 4) (sort vals)"
    by (rule interpolate_mono [OF s]) simp_all
  show "interpolate (3 / 4) (sort vals) \<le> interpolate 1 (sort vals)"
    by (rule interpolate_mono [OF s]) simp_all
qed

subsection \<open>Binning\<close>

text \<open>
  On ascending edges the count of edges below \<open>x\<close> is the insertion point numpy's
  bisection finds: every edge before it is below \<open>x\<close>, every edge from it on is not.
\<close>

lemma searchsorted_left_insertion_point:
  assumes "sorted bins"
  shows "filter (\<lambda>b. b < x) bins = takeWhile (\<lambda>b. b < x) bins"
  using assms
proof (induction bins)
  case Nil
  then show ?case by simp
next
  case (Cons b bs)
  show ?case
  proof (cases "b < x")
    case True
    with Cons show ?thesis by simp
  next
    case False
    with Cons.prems have "\<forall>c\<in>set bs. \<not> c < x" by auto
    with False show ?thesis by (simp add: filter_empty_conv)
  qed
qed

lemma searchsorted_left_mono: "x \<le> y \<Longrightarrow> searchsorted_left bins x \<le> searchsorted_left bins y"
  unfolding searchsorted_left_def by (induction bins) auto

lemma bin_id_ge_1: "bins \<noteq> [] \<Longrightarrow> hd bins \<le> x \<Longrightarrow> 1 \<le> bin_id bins True x"
  by (cases bins) (auto simp: bin_id_def searchsorted_left_def)

lemma bin_id_less_length:
  assumes "2 \<le> length bins" and "x \<le> last bins"
  shows "bin_id bins True x < length bins"
proof -
  from assms have ne: "bins \<noteq> []" by auto
  then have "last bins \<in> set bins" by simp
  with assms(2) have "length (filter (\<lambda>b. b < x) bins) < length bins"
    by (intro length_filter_less [of "last bins"]) auto
  with assms(1) show ?thesis by (simp add: bin_id_def searchsorted_left_def)
qed

lemma bin_id_mono:
  assumes "bins \<noteq> []" and "hd bins \<le> x" and "x \<le> y"
  shows "bin_id bins True x \<le> bin_id bins True y"
proof (cases "x = hd bins")
  case True
  then show ?thesis using bin_id_ge_1 [of bins y] assms by (simp add: bin_id_def)
next
  case False
  with assms have "y \<noteq> hd bins" by auto
  with False assms(3) show ?thesis
    by (simp add: bin_id_def searchsorted_left_mono)
qed

lemma qcut_bin_range:
  assumes "v \<in> set vals"
  shows "1 \<le> bin_id (qcut_edges vals 4) True v \<and> bin_id (qcut_edges vals 4) True v \<le> 4"
proof -
  have "1 \<le> bin_id (qcut_edges vals 4) True v"
    using sort_nth_0_le [OF assms] by (intro bin_id_ge_1) (simp_all add: qcut_edges_4 interpolate_0)
  moreover have "bin_id (qcut_edges vals 4) True v < length (qcut_edges vals 4)"
    using sort_nth_last_ge [OF assms] by (intro bin_id_less_length) (simp_all add: qcut_edges_4 interpolate_1)
  ultimately show ?thesis by (simp add: qcut_edges_4)
qed

lemma qcut_bin_mono:
  assumes "v \<in> set vals" and "v \<le> w"
  shows "bin_id (qcut_edges vals 4) True v \<le> bin_id (qcut_edges vals 4) True w"
  using sort_nth_0_le [OF assms(1)] assms(2)
  by (intro bin_id_mono) (simp_all add: qcut_edges_4 interpolate_0)

lemma lowest_quartile_bin:
  assumes "v \<in> set vals"
  shows "bin_id (qcut_edges vals 4) True v = 1 \<longleftrightarrow> v \<le> interpolate (1 / 4) (sort vals)"
proof -
  from assms have ne: "vals \<noteq> []" by auto
  note asc = qcut_edges_ascending [OF ne]
  have lowest: "interpolate 0 (sort vals) \<le> v"
    using sort_nth_0_le [OF assms] by (simp add: interpolate_0)
  show ?thesis
  proof (cases "v = interpolate 0 (sort vals)")
    case True
    then show ?thesis using asc(1) by (simp add: bin_id_def qcut_edges_4)
  next
    case False
    with lowest have "interpolate 0 (sort vals) < v" by simp
    with False asc show ?thesis
      by (auto simp: bin_id_def qcut_edges_4 searchsorted_left_def)
  qed
qed

lemma take_label_Some:
  "take_label bins labels il c = Some s \<Longrightarrow>
     \<exists>v. c = Some v \<and> s = labels ! (bin_id bins il v - 1)"
  by (auto simp: take_label_def Let_def split: option.splits if_splits)

lemma bins_to_cuts_Inr:
  assumes "bins_to_cuts x bins labels il dups = Inr r"
    and "length bins = 5" and "length labels = 4"
  shows "distinct bins \<and> r = map (take_label bins labels il) x"
proof (cases "distinct bins")
  case True
  with assms show ?thesis
    by (simp add: bins_to_cuts_def unique_distinct split: if_splits)
next
  case False
  then have "length (unique bins) < 5" using unique_shorter [of bins] assms(2) by simp
  with assms show ?thesis
    by (auto simp: bins_to_cuts_def Let_def split: if_splits)
qed

lemma qcut_Inr:
  assumes "qcut x 4 labels dups = Inr r" and "length labels = 4"
  shows "dropna x \<noteq> [] \<and> distinct (qcut_edges (dropna x) 4) \<and>
         r = map (take_label (qcut_edges (dropna x) 4) labels True) x"
proof -
  have ne: "dropna x \<noteq> []"
    using assms by (auto simp: qcut_def Let_def split: if_splits)
  then have "bins_to_cuts x (qcut_edges (dropna x) 4) labels True dups = Inr r"
    using assms(1) by (simp add: qcut_def)
  from bins_to_cuts_Inr [OF this _ assms(2)] ne show ?thesis
    by (simp add: qcut_edges_def)
qed

lemma qcut_astype_Inr:
  assumes "bind_err (qcut x 4 labels dups) astype_int = Inr S" and "length labels = 4"
  shows "\<exists>vals. x = map Some vals \<and> vals \<noteq> [] \<and> distinct (qcut_edges vals 4) \<and>
           S = map (\<lambda>v. labels ! (bin_id (qcut_edges vals 4) True v - 1)) vals"
proof -
  from assms(1) obtain r where r: "qcut x 4 labels dups = Inr r" and "astype_int r = Inr S"
    by (auto simp: bind_err_Inr_iff)
  then have rS: "r = map Some S" by (simp add: astype_int_Inr)
  let ?E = "qcut_edges (dropna x) 4"
  from qcut_Inr [OF r assms(2)] have ne: "dropna x \<noteq> []" and dist: "distinct ?E"
    and rmap: "r = map (take_label ?E labels True) x" by auto
  have all: "\<forall>c\<in>set x. \<exists>s. take_label ?E labels True c = Some s"
  proof
    fix c assume "c \<in> set x"
    then have "take_label ?E labels True c \<in> set r" using rmap by auto
    then show "\<exists>s. take_label ?E labels True c = Some s" using rS by auto
  qed
  then have "\<forall>c\<in>set x. c \<noteq> None" using take_label_Some by fastforce
  then have x: "x = map Some (dropna x)" by (simp add: map_Some_dropna)
  have "map Some S = map (\<lambda>v. Some (labels ! (bin_id ?E True v - 1))) (dropna x)"
  proof -
    have "map Some S = map (take_label ?E labels True) (map Some (dropna x))"
      using rS rmap x by simp
    also have "\<dots> = map (\<lambda>v. Some (labels ! (bin_id ?E True v - 1))) (dropna x)"
    proof (simp, intro ballI)
      fix v assume "v \<in> set (dropna x)"
      then have "Some v \<in> set x" using x by (metis image_eqI list.set_map)
      with all obtain s where "take_label ?E labels True (Some v) = Some s" by blast
      then show "take_label ?E labels True (Some v) = Some (labels ! (bin_id ?E True v - Suc 0))"
        using take_label_Some by fastforce
    qed
    finally show ?thesis .
  qed
  then have "map Some S = map Some (map (\<lambda>v. labels ! (bin_id ?E True v - 1)) (dropna x))"
    by (simp add: comp_def)
  then have "S = map (\<lambda>v. labels ! (bin_id ?E True v - 1)) (dropna x)"
    by (simp only: inj_map_eq_map [OF inj_Some])
  with x ne dist show ?thesis by blast
qed

lemma cut_age:
  "cut x age_bins age_labels = Inr (map (take_label age_bins age_labels False) x)"
proof -
  have "distinct age_bins" "sorted age_bins" "distinct age_labels"
    by (simp_all add: age_bins_def age_labels_def)
  then show ?thesis
    by (simp add: cut_def bins_to_cuts_def unique_distinct Let_def)
      (simp add: age_bins_def age_labels_def)
qed

lemma age_label:
  "take_label age_bins age_labels False (Some (of_int a)) =
     (if 0 < a \<and> a \<le> 25 then Some ''18-25''
      else if 25 < a \<and> a \<le> 35 then Some ''26-35''
      else if 35 < a \<and> a \<le> 45 then Some ''36-45''
      else if 45 < a \<and> a \<le> 60 then Some ''46-60''
      else if 60 < a \<and> a \<le> 100 then Some ''60+''
      else None)"
  by (simp add: take_label_def bin_id_def searchsorted_left_def age_bins_def age_labels_def)

subsection \<open>Ranks\<close>

lemma count_less_plus_eq_le:
  fixes v :: "'a :: linorder"
  shows "v < u \<Longrightarrow>
    length (filter (\<lambda>w. w < v) xs) + length (filter (\<lambda>w. w = v) xs)
      \<le> length (filter (\<lambda>w. w < u) xs)"
  by (induction xs) auto

lemma count_eq_prefix:
  assumes "i < j" and "j \<le> length xs"
  shows "Suc (length (filter (\<lambda>w. w = xs ! i) (take i xs)))
           \<le> length (filter (\<lambda>w. w = xs ! i) (take j xs))"
proof -
  have i: "i < length xs" using assms by simp
  have "take j xs = take (Suc i) (take j xs) @ drop (Suc i) (take j xs)"
    by (simp only: append_take_drop_id)
  also have "take (Suc i) (take j xs) = take (Suc i) xs"
    using assms(1) by (simp add: min_def)
  also have "take (Suc i) xs = take i xs @ [xs ! i]"
    using i by (simp add: take_Suc_conv_app_nth)
  finally have "take j xs = (take i xs @ [xs ! i]) @ drop (Suc i) (take j xs)" .
  then have "length (filter (\<lambda>w. w = xs ! i) (take j xs)) =
      length (filter (\<lambda>w. w = xs ! i) ((take i xs @ [xs ! i]) @ drop (Suc i) (take j xs)))"
    by simp
  then show ?thesis by simp
qed

lemma stable_rank_less:
  assumes "i < length fs" and "j < length fs"
    and "fs ! i < fs ! j \<or> (fs ! i = fs ! j \<and> i < j)"
  shows "stable_rank fs i < stable_rank fs j"
proof (cases "fs ! i < fs ! j")
  case True
  have "Suc (length (filter (\<lambda>w. w = fs ! i) (take i fs)))
          \<le> length (filter (\<lambda>w. w = fs ! i) (take (length fs) fs))"
    using assms(1) by (intro count_eq_prefix) simp_all
  moreover note count_less_plus_eq_le [OF True, of fs]
  ultimately show ?thesis by (simp add: stable_rank_def)
next
  case False
  with assms(3) have tie: "fs ! i = fs ! j" and ij: "i < j" by auto
  have "Suc (length (filter (\<lambda>w. w = fs ! i) (take i fs)))
          \<le> length (filter (\<lambda>w. w = fs ! i) (take j fs))"
    using ij assms(2) by (intro count_eq_prefix) simp_all
  then show ?thesis by (simp add: stable_rank_def tie)
qed

lemma rank_first_no_null:
  assumes "rank_first col = map Some fv"
  shows "\<forall>c\<in>set col. c \<noteq> None"
proof
  fix c assume "c \<in> set col"
  then obtain i where i: "i < length col" and c: "col ! i = c"
    by (metis in_set_conv_nth)
  have "length fv = length col"
    using arg_cong [OF assms, of length] by (simp add: rank_first_def)
  with i have "rank_first col ! i = Some (fv ! i)" by (simp add: assms)
  with i c show "c \<noteq> None" by (cases "col ! i") (auto simp: rank_first_def)
qed

lemma dropna_map_Some_fun: "dropna (map (\<lambda>x. Some (g x)) xs) = map g xs"
  by (induction xs) auto

lemma rank_first_ints:
  "rank_first (int_col (map Some fs)) =
     map (\<lambda>i. Some (rat_of_nat (stable_rank fs i))) [0..<length fs]"
  by (simp add: rank_first_def int_col_def comp_def take_map dropna_map_Some_fun filter_map
      stable_rank_def)

section \<open>The customer lifetime value cleaner\<close>

lemma clean_customer_clv_sample:
  "clean_customer_clv Pandas2 clv_sample = Inr clv_sample_tiered"
  unfolding clv_sample_def clv_sample_tiered_def by code_simp

lemma clean_customer_clv_sample_pandas3:
  "clean_customer_clv Pandas3 clv_sample = Inr clv_sample_unfilled"
  unfolding clv_sample_def clv_sample_unfilled_def clv_sample_tiered_def by code_simp

lemma clv_tiered_sel:
  "clv_tier (clv_row.extend r (clv_tiered.fields t)) = t"
  "clv_estimate (clv_row.extend r (clv_tiered.fields t)) = clv_estimate r"
  "customer_lifespan_days (clv_row.extend r (clv_tiered.fields t)) = customer_lifespan_days r"
  "first_order_date (clv_row.extend r (clv_tiered.fields t)) = first_order_date r"
  "last_order_date (clv_row.extend r (clv_tiered.fields t)) = last_order_date r"
  "clv_others (clv_row.extend r (clv_tiered.fields t)) = clv_others r"
  by (simp_all add: clv_row.defs clv_tiered.defs)

text \<open>
  What a run of \<^verbatim>\<open>clean_customer_clv\<close> that returns computed, row by row, on either
  pandas version: the estimate column after the fill, its quartile edges, which are
  distinct, and the tier of each row.
\<close>

lemma clean_customer_clv_Inr:
  assumes "clean_customer_clv pd df = Inr out"
  defines "col \<equiv> map (\<lambda>r. fillna_inplace pd (Some 0) (clv_estimate r)) df"
  shows "distinct (qcut_edges (dropna col) 4) \<and> length out = length df \<and>
         (\<forall>i<length df.
            clv_estimate (out ! i) = col ! i \<and>
            clv_tier (out ! i) = take_label (qcut_edges (dropna col) 4) clv_labels True (col ! i) \<and>
            clv_others (out ! i) = clv_others (df ! i))"
proof -
  define fill where "fill = (\<lambda>r :: 'a clv_row.
    r\<lparr>clv_estimate := fillna_inplace pd (Some 0) (clv_estimate r),
      customer_lifespan_days := fillna_inplace pd (Some 0) (customer_lifespan_days r)\<rparr>)"
  from assms(1) obtain firsts lasts tiers where
    f: "to_datetime (map first_order_date df) = Inr firsts" and
    l: "to_datetime (map last_order_date df) = Inr lasts" and
    q: "qcut (map clv_estimate
          (map (\<lambda>r. r\<lparr>customer_lifespan_days :=
                         fillna_inplace pd (Some 0) (customer_lifespan_days r)\<rparr>)
            (map (\<lambda>r. r\<lparr>clv_estimate := fillna_inplace pd (Some 0) (clv_estimate r)\<rparr>)
              (map2 (\<lambda>r d. r\<lparr>last_order_date := d\<rparr>)
                (map2 (\<lambda>r d. r\<lparr>first_order_date := d\<rparr>) df firsts) lasts)))) 4 clv_labels Drop
        = Inr tiers" and
    out: "out = map2 (\<lambda>r t. clv_row.extend r (clv_tiered.fields t))
          (map (\<lambda>r. r\<lparr>customer_lifespan_days :=
                         fillna_inplace pd (Some 0) (customer_lifespan_days r)\<rparr>)
            (map (\<lambda>r. r\<lparr>clv_estimate := fillna_inplace pd (Some 0) (clv_estimate r)\<rparr>)
              (map2 (\<lambda>r d. r\<lparr>last_order_date := d\<rparr>)
                (map2 (\<lambda>r d. r\<lparr>first_order_date := d\<rparr>) df firsts) lasts))) tiers"
    unfolding clean_customer_clv_def Let_def by (auto simp: bind_err_Inr_iff)
  have firsts: "firsts = map first_order_date df" and lasts: "lasts = map last_order_date df"
    using to_datetime_Inr [OF f] to_datetime_Inr [OF l] by simp_all
  have parsed: "map2 (\<lambda>r d. r\<lparr>last_order_date := d\<rparr>)
                (map2 (\<lambda>r d. r\<lparr>first_order_date := d\<rparr>) df firsts) lasts = df"
    by (simp add: firsts lasts map2_same)
  have filled: "map (\<lambda>r. r\<lparr>customer_lifespan_days :=
                         fillna_inplace pd (Some 0) (customer_lifespan_days r)\<rparr>)
            (map (\<lambda>r. r\<lparr>clv_estimate := fillna_inplace pd (Some 0) (clv_estimate r)\<rparr>) df)
          = map fill df"
    by (simp add: fill_def comp_def)
  have colf: "map clv_estimate (map fill df) = col"
    by (simp add: col_def fill_def comp_def)
  from q have q': "qcut col 4 clv_labels Drop = Inr tiers"
    by (simp only: parsed filled colf)
  from out have out': "out = map2 (\<lambda>r t. clv_row.extend r (clv_tiered.fields t)) (map fill df) tiers"
    by (simp only: parsed filled)
  have "length clv_labels = 4" by (simp add: clv_labels_def)
  from qcut_Inr [OF q' this]
  have tiers: "tiers = map (take_label (qcut_edges (dropna col) 4) clv_labels True) col"
    and dist: "distinct (qcut_edges (dropna col) 4)"
    by simp_all
  have lc: "length col = length df" by (simp add: col_def)
  have lt: "length tiers = length df" using tiers lc by simp
  have len: "length out = length df" using out' lt by simp
  have "\<forall>i<length df.
            clv_estimate (out ! i) = col ! i \<and>
            clv_tier (out ! i) = take_label (qcut_edges (dropna col) 4) clv_labels True (col ! i) \<and>
            clv_others (out ! i) = clv_others (df ! i)"
  proof (intro allI impI)
    fix i assume i: "i < length df"
    have t: "tiers ! i = take_label (qcut_edges (dropna col) 4) clv_labels True (col ! i)"
      using i lc by (simp add: tiers)
    have e: "clv_estimate (fill (df ! i)) = col ! i" "clv_others (fill (df ! i)) = clv_others (df ! i)"
      using i by (simp_all add: col_def fill_def)
    show "clv_estimate (out ! i) = col ! i \<and>
            clv_tier (out ! i) = take_label (qcut_edges (dropna col) 4) clv_labels True (col ! i) \<and>
            clv_others (out ! i) = clv_others (df ! i)"
      using i lt t e by (simp add: out' clv_tiered_sel)
  qed
  with len dist show ?thesis by blast
qed

lemma tier_rank_nth: "1 \<le> b \<Longrightarrow> b \<le> 4 \<Longrightarrow>
    tier_rank (clv_labels ! (b - 1)) = b - 1 \<and> clv_labels ! (b - 1) \<in> set clv_labels"
proof -
  assume "1 \<le> b" "b \<le> 4"
  then have "b = 1 \<or> b = 2 \<or> b = 3 \<or> b = 4" by auto
  then show ?thesis by (auto simp: clv_labels_def tier_rank_def)
qed

text \<open>
  C6. In a run of \<^verbatim>\<open>clean_customer_clv\<close> that returns, on either pandas version, two
  customers that have a CLV estimate each have one of the four tiers, and the one with the
  larger estimate never has the lower tier. On pandas 1.x and 2.x every customer has an
  estimate (a null was filled with 0), so this holds of every pair of customers.
\<close>

theorem clv_tier_monotone:
  assumes "clean_customer_clv pd df = Inr out" and "i < length out" and "j < length out"
  shows "(\<forall>a b. clv_estimate (out ! i) = Some a \<and> clv_estimate (out ! j) = Some b \<longrightarrow>
            (\<exists>ta tb.
               clv_tier (out ! i) = Some ta \<and> clv_tier (out ! j) = Some tb \<and>
               ta \<in> set clv_labels \<and> tb \<in> set clv_labels \<and>
               (b < a \<longrightarrow> tier_rank tb \<le> tier_rank ta))) \<and>
         (pd = Pandas2 \<longrightarrow>
            (\<exists>a b ta tb.
               clv_estimate (out ! i) = Some a \<and> clv_estimate (out ! j) = Some b \<and>
               clv_tier (out ! i) = Some ta \<and> clv_tier (out ! j) = Some tb \<and>
               ta \<in> set clv_labels \<and> tb \<in> set clv_labels \<and>
               (b < a \<longrightarrow> tier_rank tb \<le> tier_rank ta)))"
proof -
  define col where "col = map (\<lambda>r. fillna_inplace pd (Some 0) (clv_estimate r)) df"
  define vals where "vals = dropna col"
  note run = clean_customer_clv_Inr [OF assms(1), folded col_def, folded vals_def]
  from run have len: "length out = length df" by simp
  have i: "i < length df" and j: "j < length df" using assms(2,3) len by simp_all
  have lc: "length col = length df" by (simp add: col_def)
  from run i j have est: "clv_estimate (out ! i) = col ! i" "clv_estimate (out ! j) = col ! j"
    and tier: "clv_tier (out ! i) = take_label (qcut_edges vals 4) clv_labels True (col ! i)"
      "clv_tier (out ! j) = take_label (qcut_edges vals 4) clv_labels True (col ! j)"
    by simp_all
  have label: "\<And>v. v \<in> set vals \<Longrightarrow>
      take_label (qcut_edges vals 4) clv_labels True (Some v) =
        Some (clv_labels ! (bin_id (qcut_edges vals 4) True v - 1))"
  proof -
    fix v assume "v \<in> set vals"
    from qcut_bin_range [OF this] show "take_label (qcut_edges vals 4) clv_labels True (Some v) =
        Some (clv_labels ! (bin_id (qcut_edges vals 4) True v - 1))"
      by (simp add: take_label_def Let_def qcut_edges_4)
  qed
  have general: "\<exists>ta tb.
               clv_tier (out ! i) = Some ta \<and> clv_tier (out ! j) = Some tb \<and>
               ta \<in> set clv_labels \<and> tb \<in> set clv_labels \<and>
               (b < a \<longrightarrow> tier_rank tb \<le> tier_rank ta)"
    if ab: "clv_estimate (out ! i) = Some a" "clv_estimate (out ! j) = Some b" for a b
  proof -
    have "Some a \<in> set col" "Some b \<in> set col"
      using ab est i j lc by (metis nth_mem)+
    then have mem: "a \<in> set vals" "b \<in> set vals" by (simp_all add: vals_def set_dropna)
    let ?ba = "bin_id (qcut_edges vals 4) True a"
    let ?bb = "bin_id (qcut_edges vals 4) True b"
    have ra: "1 \<le> ?ba" "?ba \<le> 4" and rb: "1 \<le> ?bb" "?bb \<le> 4"
      using qcut_bin_range [OF mem(1)] qcut_bin_range [OF mem(2)] by simp_all
    have ta: "clv_tier (out ! i) = Some (clv_labels ! (?ba - 1))"
      and tb: "clv_tier (out ! j) = Some (clv_labels ! (?bb - 1))"
      using tier ab est label [OF mem(1)] label [OF mem(2)] by simp_all
    have mono: "b < a \<longrightarrow> tier_rank (clv_labels ! (?bb - 1)) \<le> tier_rank (clv_labels ! (?ba - 1))"
    proof
      assume "b < a"
      then have "b \<le> a" by simp
      from qcut_bin_mono [OF mem(2) this]
      show "tier_rank (clv_labels ! (?bb - 1)) \<le> tier_rank (clv_labels ! (?ba - 1))"
        using tier_rank_nth [OF ra] tier_rank_nth [OF rb] by simp
    qed
    from ta tb mono tier_rank_nth [OF ra] tier_rank_nth [OF rb] show ?thesis by blast
  qed
  have filled: "\<exists>a b ta tb.
               clv_estimate (out ! i) = Some a \<and> clv_estimate (out ! j) = Some b \<and>
               clv_tier (out ! i) = Some ta \<and> clv_tier (out ! j) = Some tb \<and>
               ta \<in> set clv_labels \<and> tb \<in> set clv_labels \<and>
               (b < a \<longrightarrow> tier_rank tb \<le> tier_rank ta)"
    if pd: "pd = Pandas2"
  proof -
    have "\<exists>a. col ! i = Some a" "\<exists>b. col ! j = Some b"
      using i j by (simp_all add: col_def pd fillna_Some)
    then obtain a b where "clv_estimate (out ! i) = Some a" "clv_estimate (out ! j) = Some b"
      using est by auto
    with general [OF this] show ?thesis by blast
  qed
  from general filled show ?thesis by blast
qed

text \<open>
  On the sample table the first customer (estimate 1600, Platinum) against the fourth
  (estimate 800, Silver), on either pandas version; the third customer has no estimate,
  which pandas 1.x and 2.x fill with 0 (Bronze) and pandas 3 leaves without a tier.
\<close>

theorem clv_tier_monotone_witness:
  "clean_customer_clv Pandas2 clv_sample = Inr clv_sample_tiered \<and>
   clv_estimate (clv_sample_tiered ! 0) = Some 1600 \<and>
   clv_estimate (clv_sample_tiered ! 3) = Some 800 \<and>
   clv_tier (clv_sample_tiered ! 0) = Some ''Platinum'' \<and>
   clv_tier (clv_sample_tiered ! 3) = Some ''Silver'' \<and>
   tier_rank ''Silver'' \<le> tier_rank ''Platinum'' \<and>
   clean_customer_clv Pandas3 clv_sample = Inr clv_sample_unfilled \<and>
   clv_estimate (clv_sample_unfilled ! 0) = Some 1600 \<and>
   clv_estimate (clv_sample_unfilled ! 3) = Some 800 \<and>
   clv_tier (clv_sample_unfilled ! 0) = Some ''Platinum'' \<and>
   clv_tier (clv_sample_unfilled ! 3) = Some ''Silver''"
proof -
  have l: "0 < length clv_sample_tiered" "3 < length clv_sample_tiered"
    and v: "clv_estimate (clv_sample_tiered ! 0) = Some 1600"
      "clv_estimate (clv_sample_tiered ! 3) = Some 800"
      "clv_tier (clv_sample_tiered ! 0) = Some ''Platinum''"
      "clv_tier (clv_sample_tiered ! 3) = Some ''Silver''"
    by (simp_all add: clv_sample_tiered_def)
  have l3: "0 < length clv_sample_unfilled" "3 < length clv_sample_unfilled"
    and v3: "clv_estimate (clv_sample_unfilled ! 0) = Some 1600"
      "clv_estimate (clv_sample_unfilled ! 3) = Some 800"
      "clv_tier (clv_sample_unfilled ! 0) = Some ''Platinum''"
      "clv_tier (clv_sample_unfilled ! 3) = Some ''Silver''"
    by (simp_all add: clv_sample_unfilled_def clv_sample_tiered_def)
  from clv_tier_monotone [OF clean_customer_clv_sample l]
       clv_tier_monotone [OF clean_customer_clv_sample_pandas3 l3]
       v v3 clean_customer_clv_sample clean_customer_clv_sample_pandas3
  show ?thesis by auto
qed

section \<open>The RFM scorer\<close>

lemma clean_rfm_sample: "clean_rfm rfm_sample = Inr rfm_sample_scored"
  unfolding rfm_sample_def rfm_sample_scored_def by code_simp

lemma clean_rfm_tied: "clean_rfm rfm_tied = Inr rfm_tied_scored"
  unfolding rfm_tied_def rfm_tied_scored_def by code_simp

lemma recency_quartile_sample:
  "quantile (1 / 4) (dropna (int_col (map recency_days rfm_sample))) = Some (35 / 2)"
  unfolding rfm_sample_def by code_simp

lemma rfm_scored_sel:
  "R_score (rfm_row.extend r (rfm_scored.fields a b c d e)) = a"
  "F_score (rfm_row.extend r (rfm_scored.fields a b c d e)) = b"
  "M_score (rfm_row.extend r (rfm_scored.fields a b c d e)) = c"
  "RFM_score (rfm_row.extend r (rfm_scored.fields a b c d e)) = d"
  "rfm_segment (rfm_row.extend r (rfm_scored.fields a b c d e)) = e"
  "recency_days (rfm_row.extend r (rfm_scored.fields a b c d e)) = recency_days r"
  "frequency (rfm_row.extend r (rfm_scored.fields a b c d e)) = frequency r"
  "monetary (rfm_row.extend r (rfm_scored.fields a b c d e)) = monetary r"
  "rfm_others (rfm_row.extend r (rfm_scored.fields a b c d e)) = rfm_others r"
  by (simp_all add: rfm_row.defs rfm_scored.defs)

lemma labels_desc_nth: "1 \<le> b \<Longrightarrow> b \<le> 4 \<Longrightarrow> [4, 3, 2, 1 :: int] ! (b - 1) = 5 - int b"
proof -
  assume "1 \<le> b" "b \<le> 4"
  then have "b = 1 \<or> b = 2 \<or> b = 3 \<or> b = 4" by auto
  then show ?thesis by auto
qed

lemma labels_asc_nth: "1 \<le> b \<Longrightarrow> b \<le> 4 \<Longrightarrow> [1, 2, 3, 4 :: int] ! (b - 1) = int b"
proof -
  assume "1 \<le> b" "b \<le> 4"
  then have "b = 1 \<or> b = 2 \<or> b = 3 \<or> b = 4" by auto
  then show ?thesis by auto
qed

text \<open>What a successful run of \<^verbatim>\<open>clean_rfm\<close> computed, row by row.\<close>

lemma clean_rfm_Inr:
  assumes "clean_rfm df = Inr out"
  shows "\<exists>rv fv mv.
           int_col (map recency_days df) = map Some rv \<and>
           rank_first (int_col (map frequency df)) = map Some fv \<and>
           map monetary df = map Some mv \<and>
           distinct (qcut_edges rv 4) \<and> distinct (qcut_edges mv 4) \<and>
           length out = length df \<and>
           (\<forall>i<length df.
              R_score (out ! i) = 5 - int (bin_id (qcut_edges rv 4) True (rv ! i)) \<and>
              F_score (out ! i) = int (bin_id (qcut_edges fv 4) True (fv ! i)) \<and>
              M_score (out ! i) = int (bin_id (qcut_edges mv 4) True (mv ! i)) \<and>
              RFM_score (out ! i) = R_score (out ! i) + F_score (out ! i) + M_score (out ! i) \<and>
              rfm_segment (out ! i) = rfm_label (RFM_score (out ! i)) \<and>
              recency_days (out ! i) = recency_days (df ! i) \<and>
              frequency (out ! i) = frequency (df ! i) \<and>
              monetary (out ! i) = monetary (df ! i) \<and>
              rfm_others (out ! i) = rfm_others (df ! i))"
proof -
  from assms obtain R F M where
    R: "bind_err (qcut (int_col (map recency_days df)) 4 [4, 3, 2, 1] Drop) astype_int = Inr R" and
    F: "bind_err (qcut (rank_first (int_col (map frequency df))) 4 [1, 2, 3, 4] Raise) astype_int = Inr F" and
    M: "bind_err (qcut (map monetary df) 4 [1, 2, 3, 4] Drop) astype_int = Inr M" and
    out: "out = map (\<lambda>i. let score = R ! i + F ! i + M ! i
                      in rfm_row.extend (df ! i)
                           (rfm_scored.fields (R ! i) (F ! i) (M ! i) score (rfm_label score)))
                [0..<length df]"
    unfolding clean_rfm_def by (auto simp: bind_err_Inr_iff)
  from qcut_astype_Inr [OF R] obtain rv where
    rv: "int_col (map recency_days df) = map Some rv"
    and dr: "distinct (qcut_edges rv 4)"
    and Rv: "R = map (\<lambda>v. [4, 3, 2, 1] ! (bin_id (qcut_edges rv 4) True v - 1)) rv" by auto
  from qcut_astype_Inr [OF F] obtain fv where
    fv: "rank_first (int_col (map frequency df)) = map Some fv"
    and Fv: "F = map (\<lambda>v. [1, 2, 3, 4] ! (bin_id (qcut_edges fv 4) True v - 1)) fv" by auto
  from qcut_astype_Inr [OF M] obtain mv where
    mv: "map monetary df = map Some mv"
    and dm: "distinct (qcut_edges mv 4)"
    and Mv: "M = map (\<lambda>v. [1, 2, 3, 4] ! (bin_id (qcut_edges mv 4) True v - 1)) mv" by auto
  have lr: "length rv = length df"
    using arg_cong [OF rv, of length] by (simp add: int_col_def)
  have lf: "length fv = length df"
    using arg_cong [OF fv, of length] by (simp add: int_col_def rank_first_def)
  have lm: "length mv = length df"
    using arg_cong [OF mv, of length] by simp
  have "\<forall>i<length df.
          R ! i = 5 - int (bin_id (qcut_edges rv 4) True (rv ! i)) \<and>
          F ! i = int (bin_id (qcut_edges fv 4) True (fv ! i)) \<and>
          M ! i = int (bin_id (qcut_edges mv 4) True (mv ! i))"
  proof (intro allI impI)
    fix i assume i: "i < length df"
    have "rv ! i \<in> set rv" "fv ! i \<in> set fv" "mv ! i \<in> set mv"
      using i lr lf lm by simp_all
    then show "R ! i = 5 - int (bin_id (qcut_edges rv 4) True (rv ! i)) \<and>
          F ! i = int (bin_id (qcut_edges fv 4) True (fv ! i)) \<and>
          M ! i = int (bin_id (qcut_edges mv 4) True (mv ! i))"
      using i lr lf lm Rv Fv Mv qcut_bin_range labels_desc_nth labels_asc_nth by simp
  qed
  then have scores: "\<And>i. i < length df \<Longrightarrow>
          R ! i = 5 - int (bin_id (qcut_edges rv 4) True (rv ! i)) \<and>
          F ! i = int (bin_id (qcut_edges fv 4) True (fv ! i)) \<and>
          M ! i = int (bin_id (qcut_edges mv 4) True (mv ! i))" by blast
  have len: "length out = length df" using out by simp
  have row: "\<And>i. i < length df \<Longrightarrow>
          out ! i = rfm_row.extend (df ! i)
                     (rfm_scored.fields (R ! i) (F ! i) (M ! i) (R ! i + F ! i + M ! i)
                        (rfm_label (R ! i + F ! i + M ! i)))"
    using out by (simp add: Let_def)
  have "\<forall>i<length df.
              R_score (out ! i) = 5 - int (bin_id (qcut_edges rv 4) True (rv ! i)) \<and>
              F_score (out ! i) = int (bin_id (qcut_edges fv 4) True (fv ! i)) \<and>
              M_score (out ! i) = int (bin_id (qcut_edges mv 4) True (mv ! i)) \<and>
              RFM_score (out ! i) = R_score (out ! i) + F_score (out ! i) + M_score (out ! i) \<and>
              rfm_segment (out ! i) = rfm_label (RFM_score (out ! i)) \<and>
              recency_days (out ! i) = recency_days (df ! i) \<and>
              frequency (out ! i) = frequency (df ! i) \<and>
              monetary (out ! i) = monetary (df ! i) \<and>
              rfm_others (out ! i) = rfm_others (df ! i)"
  proof (intro allI impI)
    fix i assume i: "i < length df"
    show "R_score (out ! i) = 5 - int (bin_id (qcut_edges rv 4) True (rv ! i)) \<and>
              F_score (out ! i) = int (bin_id (qcut_edges fv 4) True (fv ! i)) \<and>
              M_score (out ! i) = int (bin_id (qcut_edges mv 4) True (mv ! i)) \<and>
              RFM_score (out ! i) = R_score (out ! i) + F_score (out ! i) + M_score (out ! i) \<and>
              rfm_segment (out ! i) = rfm_label (RFM_score (out ! i)) \<and>
              recency_days (out ! i) = recency_days (df ! i) \<and>
              frequency (out ! i) = frequency (df ! i) \<and>
              monetary (out ! i) = monetary (df ! i) \<and>
              rfm_others (out ! i) = rfm_others (df ! i)"
      using scores [OF i] by (simp only: row [OF i] rfm_scored_sel)
  qed
  with rv fv mv dr dm len show ?thesis by blast
qed

text \<open>
  C3. Every row returned by \<^verbatim>\<open>clean_rfm\<close> has its three dimension scores between 1 and
  4, its \<open>RFM_score\<close> equal to \<open>R_score + F_score + M_score\<close> and between 3 and 12, and
  its \<open>rfm_segment\<close> given by the threshold table: 10 or more is Champions, 8 to 9 Loyal
  Customers, 6 to 7 Potential Loyalists, 4 to 5 At Risk, below 4 Lost Customers; at the
  boundary, 10 is Champions and 9 is Loyal Customers.
\<close>

theorem rfm_score_sum_range_segment:
  assumes "clean_rfm df = Inr out" and "r \<in> set out"
  shows "1 \<le> R_score r \<and> R_score r \<le> 4 \<and> 1 \<le> F_score r \<and> F_score r \<le> 4 \<and>
         1 \<le> M_score r \<and> M_score r \<le> 4 \<and>
         RFM_score r = R_score r + F_score r + M_score r \<and>
         3 \<le> RFM_score r \<and> RFM_score r \<le> 12 \<and>
         rfm_segment r =
           (if 10 \<le> RFM_score r then ''Champions''
            else if RFM_score r = 8 \<or> RFM_score r = 9 then ''Loyal Customers''
            else if RFM_score r = 6 \<or> RFM_score r = 7 then ''Potential Loyalists''
            else if RFM_score r = 4 \<or> RFM_score r = 5 then ''At Risk''
            else ''Lost Customers'') \<and>
         (RFM_score r = 10 \<longrightarrow> rfm_segment r = ''Champions'') \<and>
         (RFM_score r = 9 \<longrightarrow> rfm_segment r = ''Loyal Customers'')"
proof -
  from clean_rfm_Inr [OF assms(1)] obtain rv fv mv where
    rv: "int_col (map recency_days df) = map Some rv" and
    fv: "rank_first (int_col (map frequency df)) = map Some fv" and
    mv: "map monetary df = map Some mv" and
    len: "length out = length df" and
    rows: "\<And>i. i < length df \<Longrightarrow>
              R_score (out ! i) = 5 - int (bin_id (qcut_edges rv 4) True (rv ! i)) \<and>
              F_score (out ! i) = int (bin_id (qcut_edges fv 4) True (fv ! i)) \<and>
              M_score (out ! i) = int (bin_id (qcut_edges mv 4) True (mv ! i)) \<and>
              RFM_score (out ! i) = R_score (out ! i) + F_score (out ! i) + M_score (out ! i) \<and>
              rfm_segment (out ! i) = rfm_label (RFM_score (out ! i))"
    by blast
  have lr: "length rv = length df"
    using arg_cong [OF rv, of length] by (simp add: int_col_def)
  have lf: "length fv = length df"
    using arg_cong [OF fv, of length] by (simp add: int_col_def rank_first_def)
  have lm: "length mv = length df"
    using arg_cong [OF mv, of length] by simp
  from assms(2) obtain i where i: "i < length df" and r: "r = out ! i"
    using len by (metis in_set_conv_nth)
  have "rv ! i \<in> set rv" "fv ! i \<in> set fv" "mv ! i \<in> set mv"
    using i lr lf lm by simp_all
  then have b: "1 \<le> bin_id (qcut_edges rv 4) True (rv ! i)" "bin_id (qcut_edges rv 4) True (rv ! i) \<le> 4"
    "1 \<le> bin_id (qcut_edges fv 4) True (fv ! i)" "bin_id (qcut_edges fv 4) True (fv ! i) \<le> 4"
    "1 \<le> bin_id (qcut_edges mv 4) True (mv ! i)" "bin_id (qcut_edges mv 4) True (mv ! i) \<le> 4"
    using qcut_bin_range by blast+
  have R: "1 \<le> R_score r" "R_score r \<le> 4" using rows [OF i] b(1,2) r by auto
  have F: "1 \<le> F_score r" "F_score r \<le> 4" using rows [OF i] b(3,4) r by auto
  have M: "1 \<le> M_score r" "M_score r \<le> 4" using rows [OF i] b(5,6) r by auto
  have S: "RFM_score r = R_score r + F_score r + M_score r" using rows [OF i] r by simp
  have L: "rfm_segment r = rfm_label (RFM_score r)" using rows [OF i] r by simp
  have rng: "3 \<le> RFM_score r" "RFM_score r \<le> 12" using R F M S by auto
  have tab: "rfm_label (RFM_score r) =
           (if 10 \<le> RFM_score r then ''Champions''
            else if RFM_score r = 8 \<or> RFM_score r = 9 then ''Loyal Customers''
            else if RFM_score r = 6 \<or> RFM_score r = 7 then ''Potential Loyalists''
            else if RFM_score r = 4 \<or> RFM_score r = 5 then ''At Risk''
            else ''Lost Customers'')"
    unfolding rfm_label_def by auto
  have b10: "RFM_score r = 10 \<longrightarrow> rfm_segment r = ''Champions''"
    and b9: "RFM_score r = 9 \<longrightarrow> rfm_segment r = ''Loyal Customers''"
    using L by (simp_all add: rfm_label_def)
  from R F M S rng L tab b10 b9 show ?thesis by (simp only: simp_thms)
qed

text \<open>
  On the sample table the first customer scores 4 + 2 + 4 = 10 and is a Champion, the
  second scores 3 + 3 + 3 = 9 and is a Loyal Customer.
\<close>

theorem rfm_score_sum_range_segment_witness:
  "clean_rfm rfm_sample = Inr rfm_sample_scored \<and>
   rfm_sample_scored ! 0 \<in> set rfm_sample_scored \<and>
   RFM_score (rfm_sample_scored ! 0) = 10 \<and>
   rfm_segment (rfm_sample_scored ! 0) = ''Champions'' \<and>
   rfm_sample_scored ! 1 \<in> set rfm_sample_scored \<and>
   RFM_score (rfm_sample_scored ! 1) = 9 \<and>
   rfm_segment (rfm_sample_scored ! 1) = ''Loyal Customers''"
proof -
  have m0: "rfm_sample_scored ! 0 \<in> set rfm_sample_scored"
    and m1: "rfm_sample_scored ! 1 \<in> set rfm_sample_scored"
    by (simp_all add: rfm_sample_scored_def)
  have s0: "RFM_score (rfm_sample_scored ! 0) = 10" and s1: "RFM_score (rfm_sample_scored ! 1) = 9"
    by (simp_all add: rfm_sample_scored_def)
  from rfm_score_sum_range_segment [OF clean_rfm_sample m0]
       rfm_score_sum_range_segment [OF clean_rfm_sample m1]
       clean_rfm_sample m0 m1 s0 s1
  show ?thesis by simp
qed

text \<open>
  C7. In a run of \<^verbatim>\<open>clean_rfm\<close> that returns, a customer with fewer recency days than
  another never has the lower \<open>R_score\<close>, and a customer has the highest score 4 exactly
  when their recency is at most the first quartile of the recency column.
\<close>

theorem recency_score_inverted:
  assumes "clean_rfm df = Inr out" and "i < length out" and "j < length out"
  shows "\<exists>a b q1.
           recency_days (out ! i) = Some a \<and> recency_days (out ! j) = Some b \<and>
           quantile (1 / 4) (dropna (int_col (map recency_days df))) = Some q1 \<and>
           (a < b \<longrightarrow> R_score (out ! j) \<le> R_score (out ! i)) \<and>
           (R_score (out ! i) = 4 \<longleftrightarrow> of_int a \<le> q1)"
proof -
  from clean_rfm_Inr [OF assms(1)] obtain rv where
    rv: "int_col (map recency_days df) = map Some rv" and
    len: "length out = length df" and
    rows: "\<And>k. k < length df \<Longrightarrow>
              R_score (out ! k) = 5 - int (bin_id (qcut_edges rv 4) True (rv ! k)) \<and>
              recency_days (out ! k) = recency_days (df ! k)"
    by blast
  have lr: "length rv = length df"
    using arg_cong [OF rv, of length] by (simp add: int_col_def)
  have cell: "\<And>k. k < length df \<Longrightarrow> map_option rat_of_int (recency_days (df ! k)) = Some (rv ! k)"
  proof -
    fix k assume k: "k < length df"
    have "int_col (map recency_days df) ! k = map Some rv ! k" using rv by simp
    then show "map_option rat_of_int (recency_days (df ! k)) = Some (rv ! k)"
      using k lr by (simp add: int_col_def)
  qed
  have i: "i < length df" and j: "j < length df" using assms(2,3) len by simp_all
  have "\<exists>a. recency_days (df ! i) = Some a \<and> rv ! i = of_int a"
    using cell [OF i] by (cases "recency_days (df ! i)") auto
  then obtain a where a: "recency_days (df ! i) = Some a" "rv ! i = of_int a" by blast
  have "\<exists>b. recency_days (df ! j) = Some b \<and> rv ! j = of_int b"
    using cell [OF j] by (cases "recency_days (df ! j)") auto
  then obtain b where b: "recency_days (df ! j) = Some b" "rv ! j = of_int b" by blast
  have mem: "rv ! i \<in> set rv" "rv ! j \<in> set rv" using i j lr by simp_all
  then have ne: "rv \<noteq> []" by auto
  have q1: "quantile (1 / 4) (dropna (int_col (map recency_days df))) =
              Some (interpolate (1 / 4) (sort rv))"
    using ne by (simp add: rv dropna_map_Some quantile_def)
  have mono: "a < b \<longrightarrow> R_score (out ! j) \<le> R_score (out ! i)"
  proof
    assume "a < b"
    then have "rv ! i \<le> rv ! j" using a b by simp
    from qcut_bin_mono [OF mem(1) this] show "R_score (out ! j) \<le> R_score (out ! i)"
      using rows [OF i] rows [OF j] by simp
  qed
  have top: "R_score (out ! i) = 4 \<longleftrightarrow> of_int a \<le> interpolate (1 / 4) (sort rv)"
    using lowest_quartile_bin [OF mem(1)] rows [OF i] a by auto
  from a b q1 mono top rows [OF i] rows [OF j] show ?thesis by auto
qed

text \<open>
  On the sample table the first customer (10 days) against the second (20 days): the
  first quartile of recency is 17.5, the scores are 4 and 3.
\<close>

theorem recency_score_inverted_witness:
  "clean_rfm rfm_sample = Inr rfm_sample_scored \<and>
   recency_days (rfm_sample_scored ! 0) = Some 10 \<and>
   recency_days (rfm_sample_scored ! 1) = Some 20 \<and>
   quantile (1 / 4) (dropna (int_col (map recency_days rfm_sample))) = Some (35 / 2) \<and>
   R_score (rfm_sample_scored ! 1) \<le> R_score (rfm_sample_scored ! 0) \<and>
   R_score (rfm_sample_scored ! 0) = 4"
proof -
  have l: "0 < length rfm_sample_scored" "1 < length rfm_sample_scored"
    by (simp_all add: rfm_sample_scored_def)
  have r: "recency_days (rfm_sample_scored ! 0) = Some 10"
    "recency_days (rfm_sample_scored ! 1) = Some 20"
    by (simp_all add: rfm_sample_scored_def)
  from recency_score_inverted [OF clean_rfm_sample l] r recency_quartile_sample clean_rfm_sample
  show ?thesis by auto
qed

text \<open>
  In a run of \<^verbatim>\<open>clean_rfm\<close> that returns, no frequency is null, the \<open>F_score\<close> of a row is
  the quartile bin of its stable rank among the stable ranks of all rows, and so it never
  decreases from a row to one with a larger frequency, or to a later one with the same
  frequency.
\<close>

lemma f_score_from_stable_rank:
  assumes "clean_rfm df = Inr out"
  shows "\<exists>fs. map frequency df = map Some fs \<and> length out = length fs \<and>
           (\<forall>i<length fs.
              F_score (out ! i) =
                int (bin_id (qcut_edges (map (\<lambda>k. of_nat (stable_rank fs k)) [0..<length fs]) 4)
                       True (of_nat (stable_rank fs i)))) \<and>
           (\<forall>i<length fs. \<forall>j<length fs.
              fs ! i < fs ! j \<or> (fs ! i = fs ! j \<and> i < j) \<longrightarrow>
              F_score (out ! i) \<le> F_score (out ! j))"
proof -
  from clean_rfm_Inr [OF assms] obtain fv where
    fvr: "rank_first (int_col (map frequency df)) = map Some fv" and
    len: "length out = length df" and
    rows: "\<And>i. i < length df \<Longrightarrow>
              F_score (out ! i) = int (bin_id (qcut_edges fv 4) True (fv ! i))"
    by blast
  define fs where "fs = dropna (map frequency df)"
  have "\<forall>c\<in>set (map frequency df). c \<noteq> None"
    using rank_first_no_null [OF fvr] by (auto simp: int_col_def)
  then have col: "map frequency df = map Some fs"
    by (simp add: fs_def map_Some_dropna)
  have lfs: "length fs = length df"
    using arg_cong [OF col, of length] by simp
  have "map Some fv = map Some (map (\<lambda>i. rat_of_nat (stable_rank fs i)) [0..<length fs])"
    using fvr by (simp add: col rank_first_ints comp_def)
  then have fv: "fv = map (\<lambda>i. rat_of_nat (stable_rank fs i)) [0..<length fs]"
    by (simp only: inj_map_eq_map [OF inj_Some])
  have nth: "\<And>i. i < length fs \<Longrightarrow> fv ! i = rat_of_nat (stable_rank fs i)"
    by (simp add: fv)
  have exact: "\<forall>i<length fs.
              F_score (out ! i) =
                int (bin_id (qcut_edges (map (\<lambda>k. of_nat (stable_rank fs k)) [0..<length fs]) 4)
                       True (of_nat (stable_rank fs i)))"
  proof (intro allI impI)
    fix i assume i: "i < length fs"
    have "F_score (out ! i) = int (bin_id (qcut_edges fv 4) True (fv ! i))"
      using rows [of i] i lfs by simp
    then show "F_score (out ! i) =
                int (bin_id (qcut_edges (map (\<lambda>k. of_nat (stable_rank fs k)) [0..<length fs]) 4)
                       True (of_nat (stable_rank fs i)))"
      unfolding fv [symmetric] nth [OF i, symmetric] .
  qed
  have mono: "\<forall>i<length fs. \<forall>j<length fs.
              fs ! i < fs ! j \<or> (fs ! i = fs ! j \<and> i < j) \<longrightarrow>
              F_score (out ! i) \<le> F_score (out ! j)"
  proof (intro allI impI)
    fix i j assume i: "i < length fs" and j: "j < length fs"
      and order: "fs ! i < fs ! j \<or> (fs ! i = fs ! j \<and> i < j)"
    from stable_rank_less [OF i j order] have "fv ! i \<le> fv ! j"
      by (simp add: nth [OF i] nth [OF j])
    moreover have "fv ! i \<in> set fv" using i by (simp add: fv)
    ultimately have "bin_id (qcut_edges fv 4) True (fv ! i) \<le> bin_id (qcut_edges fv 4) True (fv ! j)"
      by (intro qcut_bin_mono)
    then show "F_score (out ! i) \<le> F_score (out ! j)"
      using rows [of i] rows [of j] i j lfs by simp
  qed
  from col len lfs exact mono show ?thesis by auto
qed

text \<open>
  In a run of \<^verbatim>\<open>clean_rfm\<close> that returns, the \<open>M_score\<close> of a row depends on its monetary
  value only.
\<close>

lemma m_score_from_value:
  assumes "clean_rfm df = Inr out" and "i < length out" and "j < length out"
    and "monetary (out ! i) = monetary (out ! j)"
  shows "M_score (out ! i) = M_score (out ! j)"
proof -
  from clean_rfm_Inr [OF assms(1)] obtain mv where
    mv: "map monetary df = map Some mv" and
    len: "length out = length df" and
    rows: "\<And>k. k < length df \<Longrightarrow>
              M_score (out ! k) = int (bin_id (qcut_edges mv 4) True (mv ! k)) \<and>
              monetary (out ! k) = monetary (df ! k)"
    by blast
  have i: "i < length df" and j: "j < length df" using assms(2,3) len by simp_all
  have cell: "\<And>k. k < length df \<Longrightarrow> monetary (df ! k) = Some (mv ! k)"
  proof -
    fix k assume k: "k < length df"
    have "map monetary df ! k = map Some mv ! k" using mv by simp
    moreover have "length mv = length df" using arg_cong [OF mv, of length] by simp
    ultimately show "monetary (df ! k) = Some (mv ! k)" using k by simp
  qed
  from assms(4) rows [OF i] rows [OF j] cell [OF i] cell [OF j] have "mv ! i = mv ! j" by simp
  then show ?thesis using rows [OF i] rows [OF j] by simp
qed

lemma stable_rank_sample: "map (stable_rank [5, 5, 9, 1]) [0, 1, 2, 3] = [2, 3, 4, 1]"
  by (simp add: stable_rank_def)

text \<open>
  C10. \<open>F_score\<close> is computed from a rank transform of the frequency with ties broken by row
  order, not from the frequency itself. In every run of \<^verbatim>\<open>clean_rfm\<close> that returns, the
  \<open>F_score\<close> of a row is the quartile bin of its stable rank (one, plus the number of rows
  with a smaller frequency, plus the number of earlier rows with the same frequency) among
  the stable ranks of all rows; so it never decreases from a row to one with a larger
  frequency or to a later one with the same frequency, and equal frequencies can get
  different scores: for some table two customers with the same frequency get different
  \<open>F_score\<close>s, the earlier row the lower one. \<open>M_score\<close> is binned from the monetary value
  itself, so in every run that returns, equal monetary values get equal scores.
\<close>

theorem frequency_ties_split_monetary_ties_kept:
  "(\<exists>(df :: string rfm_row list) out i j. clean_rfm df = Inr out \<and> i < j \<and> j < length out \<and>
       frequency (out ! i) = frequency (out ! j) \<and> F_score (out ! i) < F_score (out ! j)) \<and>
   (\<forall>(df :: 'o rfm_row list) out. clean_rfm df = Inr out \<longrightarrow>
      (\<exists>fs. map frequency df = map Some fs \<and> length out = length fs \<and>
         (\<forall>i<length fs.
            F_score (out ! i) =
              int (bin_id (qcut_edges (map (\<lambda>k. of_nat (stable_rank fs k)) [0..<length fs]) 4)
                     True (of_nat (stable_rank fs i)))) \<and>
         (\<forall>i<length fs. \<forall>j<length fs.
            fs ! i < fs ! j \<or> (fs ! i = fs ! j \<and> i < j) \<longrightarrow>
            F_score (out ! i) \<le> F_score (out ! j)))) \<and>
   (\<forall>(df :: 'o rfm_row list) out i j. clean_rfm df = Inr out \<and> i < length out \<and> j < length out \<and>
       monetary (out ! i) = monetary (out ! j) \<longrightarrow> M_score (out ! i) = M_score (out ! j))"
proof (intro conjI allI impI)
  have "clean_rfm rfm_sample = Inr rfm_sample_scored \<and> (0::nat) < 1 \<and>
       1 < length rfm_sample_scored \<and>
       frequency (rfm_sample_scored ! 0) = frequency (rfm_sample_scored ! 1) \<and>
       F_score (rfm_sample_scored ! 0) < F_score (rfm_sample_scored ! 1)"
    using clean_rfm_sample by (simp add: rfm_sample_scored_def)
  then show "\<exists>(df :: string rfm_row list) out i j. clean_rfm df = Inr out \<and> i < j \<and> j < length out \<and>
       frequency (out ! i) = frequency (out ! j) \<and> F_score (out ! i) < F_score (out ! j)"
    by blast
next
  fix df :: "'o rfm_row list" and out
  assume "clean_rfm df = Inr out"
  then show "\<exists>fs. map frequency df = map Some fs \<and> length out = length fs \<and>
         (\<forall>i<length fs.
            F_score (out ! i) =
              int (bin_id (qcut_edges (map (\<lambda>k. of_nat (stable_rank fs k)) [0..<length fs]) 4)
                     True (of_nat (stable_rank fs i)))) \<and>
         (\<forall>i<length fs. \<forall>j<length fs.
            fs ! i < fs ! j \<or> (fs ! i = fs ! j \<and> i < j) \<longrightarrow>
            F_score (out ! i) \<le> F_score (out ! j))"
    by (rule f_score_from_stable_rank)
next
  fix df :: "'o rfm_row list" and out i j
  assume "clean_rfm df = Inr out \<and> i < length out \<and> j < length out \<and>
       monetary (out ! i) = monetary (out ! j)"
  then show "M_score (out ! i) = M_score (out ! j)"
    using m_score_from_value by blast
qed

text \<open>
  On the first sample table the frequencies are 5, 5, 9 and 1, in row order. Their stable
  ranks are 2, 3, 4 and 1, and so are the \<open>F_score\<close>s: the two customers with frequency 5
  get 2 and 3, the customer with frequency 1 gets 1 although it is the last row. On the
  second sample table the first two customers both spent 100 and both get \<open>M_score\<close> 1.
\<close>

theorem frequency_ties_split_monetary_ties_kept_witness:
  "clean_rfm rfm_sample = Inr rfm_sample_scored \<and>
   map frequency rfm_sample = [Some 5, Some 5, Some 9, Some 1] \<and>
   map (stable_rank [5, 5, 9, 1]) [0, 1, 2, 3] = [2, 3, 4, 1] \<and>
   map F_score rfm_sample_scored = [2, 3, 4, 1] \<and>
   F_score (rfm_sample_scored ! 0) \<le> F_score (rfm_sample_scored ! 1) \<and>
   F_score (rfm_sample_scored ! 3) \<le> F_score (rfm_sample_scored ! 2) \<and>
   clean_rfm rfm_tied = Inr rfm_tied_scored \<and>
   monetary (rfm_tied_scored ! 0) = monetary (rfm_tied_scored ! 1) \<and>
   M_score (rfm_tied_scored ! 0) = M_score (rfm_tied_scored ! 1)"
proof -
  have freq: "map frequency rfm_sample = [Some 5, Some 5, Some 9, Some 1]"
    by (simp add: rfm_sample_def)
  have scores: "map F_score rfm_sample_scored = [2, 3, 4, 1]"
    by (simp add: rfm_sample_scored_def)
  from frequency_ties_split_monetary_ties_kept clean_rfm_sample obtain fs where
    fs: "map frequency rfm_sample = map Some fs" and
    mono: "\<forall>i<length fs. \<forall>j<length fs.
            fs ! i < fs ! j \<or> (fs ! i = fs ! j \<and> i < j) \<longrightarrow>
            F_score (rfm_sample_scored ! i) \<le> F_score (rfm_sample_scored ! j)"
    by blast
  have "map Some fs = map Some [5, 5, 9, 1]" using fs freq by simp
  then have fs': "fs = [5, 5, 9, 1]" by (simp only: inj_map_eq_map [OF inj_Some])
  have tie: "F_score (rfm_sample_scored ! 0) \<le> F_score (rfm_sample_scored ! 1)"
    using mono [rule_format, of 0 1] by (simp add: fs')
  have less: "F_score (rfm_sample_scored ! 3) \<le> F_score (rfm_sample_scored ! 2)"
    using mono [rule_format, of 3 2] by (simp add: fs')
  have l: "0 < length rfm_tied_scored" "1 < length rfm_tied_scored"
    and m: "monetary (rfm_tied_scored ! 0) = monetary (rfm_tied_scored ! 1)"
    by (simp_all add: rfm_tied_scored_def)
  have "M_score (rfm_tied_scored ! 0) = M_score (rfm_tied_scored ! 1)"
    using frequency_ties_split_monetary_ties_kept clean_rfm_tied l m by blast
  with clean_rfm_sample freq stable_rank_sample scores tie less clean_rfm_tied m
  show ?thesis by simp
qed

section \<open>Degenerate quantile distributions\<close>

text \<open>
  Whenever the five quartile edges of the (filled) CLV estimates are not all distinct,
  \<^verbatim>\<open>clean_customer_clv\<close> raises; whenever those of the recency or of the monetary column
  are not all distinct, \<^verbatim>\<open>clean_rfm\<close> raises.
\<close>

lemma clean_customer_clv_degenerate:
  assumes "\<not> distinct (qcut_edges
              (dropna (map (\<lambda>r. fillna_inplace pd (Some 0) (clv_estimate r)) df)) 4)"
  shows "\<exists>e. clean_customer_clv pd df = Inl e"
proof (cases "clean_customer_clv pd df")
  case (Inl e)
  then show ?thesis by simp
next
  case (Inr out)
  from clean_customer_clv_Inr [OF Inr] assms show ?thesis by simp
qed

lemma clean_rfm_degenerate:
  assumes "\<not> distinct (qcut_edges (dropna (int_col (map recency_days df))) 4) \<or>
           \<not> distinct (qcut_edges (dropna (map monetary df)) 4)"
  shows "\<exists>e. clean_rfm df = Inl e"
proof (cases "clean_rfm df")
  case (Inl e)
  then show ?thesis by simp
next
  case (Inr out)
  from clean_rfm_Inr [OF Inr] obtain rv mv where
    "int_col (map recency_days df) = map Some rv" "map monetary df = map Some mv"
    "distinct (qcut_edges rv 4)" "distinct (qcut_edges mv 4)"
    by blast
  with assms show ?thesis by (simp add: dropna_map_Some)
qed

text \<open>
  C1. The claim is that a table whose quartile edges are not all distinct is binned into
  fewer tiers without failing. The cleaners pass \<^verbatim>\<open>duplicates='drop'\<close> together with four
  fixed labels, so once an edge is dropped the label count no longer matches the bin count
  and \<^verbatim>\<open>pd.qcut\<close> raises: four customers with the same CLV estimate make
  \<^verbatim>\<open>clean_customer_clv\<close> raise, and four customers with the same recency make
  \<^verbatim>\<open>clean_rfm\<close> raise.
\<close>

theorem degenerate_quartiles_raise:
  "clean_customer_clv Pandas2 clv_flat =
     Inl (ValueError ''Bin labels must be one fewer than the number of bin edges'') \<and>
   clean_customer_clv Pandas3 clv_flat =
     Inl (ValueError ''Bin labels must be one fewer than the number of bin edges'') \<and>
   clean_rfm rfm_flat =
     Inl (ValueError ''Bin labels must be one fewer than the number of bin edges'')"
  unfolding clv_flat_def rfm_flat_def by code_simp

section \<open>The sales fact cleaner\<close>

lemma clean_sales_fact_sample: "clean_sales_fact Pandas2 sales_sample = Inr sales_sample_clean"
  unfolding sales_sample_def sales_sample_clean_def mk_sale_def mk_clean_def by code_simp

lemma sample_filtered:
  "filter (\<lambda>r. revenue_ok r \<and> quantity_ok r) (drop_duplicates sales_sample) =
     [sales_sample ! 0, sales_sample ! 3, sales_sample ! 5]"
  unfolding sales_sample_def mk_sale_def by code_simp

lemma sample_p99:
  "quantile (99 / 100) (dropna (map profit_margin_pct
      [sales_sample ! 0, sales_sample ! 3, sales_sample ! 5])) = Some (991 / 2)"
  unfolding sales_sample_def mk_sale_def by code_simp

lemma returned_spellings:
  "title (strip ''RETURNED'') = ''Returned''"
  "title (strip '' returned '') = ''Returned''"
  by code_simp+

lemma filter_rows_Inr:
  assumes "filter_rows df = Inr f"
  shows "f = filter (\<lambda>r. revenue_ok r \<and> quantity_ok r) (drop_duplicates df)"
proof -
  from assms obtain ods sds where
    o: "to_datetime (map order_date df) = Inr ods" and
    s: "to_datetime (map ship_date df) = Inr sds" and
    f: "f = filter quantity_ok (filter revenue_ok (drop_duplicates
              (map2 (\<lambda>r d. r\<lparr>ship_date := d\<rparr>) (map2 (\<lambda>r d. r\<lparr>order_date := d\<rparr>) df ods) sds)))"
    unfolding filter_rows_def Let_def by (auto simp: bind_err_Inr_iff)
  have "map2 (\<lambda>r d. r\<lparr>ship_date := d\<rparr>) (map2 (\<lambda>r d. r\<lparr>order_date := d\<rparr>) df ods) sds = df"
    using to_datetime_Inr [OF o] to_datetime_Inr [OF s] by (simp add: map2_same)
  with f show ?thesis by simp
qed

lemma handle_nulls_map:
  "handle_nulls pd f =
     map (\<lambda>r. r\<lparr>discount := fillna_inplace pd (Some 0) (discount r),
                 shipping_days := fillna_inplace pd (median (map shipping_days f)) (shipping_days r)\<rparr>) f"
  by (simp add: handle_nulls_def Let_def comp_def)

lemma cap_outliers_handle_nulls:
  "cap_outliers (handle_nulls pd f) =
     map (\<lambda>r. r\<lparr>discount := fillna_inplace pd (Some 0) (discount r),
                 shipping_days := fillna_inplace pd (median (map shipping_days f)) (shipping_days r),
                 profit_margin_pct :=
                   clip_upper (quantile (99 / 100) (dropna (map profit_margin_pct f)))
                     (profit_margin_pct r)\<rparr>) f"
  by (simp add: cap_outliers_def handle_nulls_map Let_def comp_def)

lemma sales_clean_sel:
  "discount_pct (sales_row.extend r (sales_clean.fields a b c d)) = a"
  "age_group (sales_row.extend r (sales_clean.fields a b c d)) = b"
  "is_returned (sales_row.extend r (sales_clean.fields a b c d)) = c"
  "month_year (sales_row.extend r (sales_clean.fields a b c d)) = d"
  "revenue (sales_row.extend r (sales_clean.fields a b c d)) = revenue r"
  "quantity (sales_row.extend r (sales_clean.fields a b c d)) = quantity r"
  "discount (sales_row.extend r (sales_clean.fields a b c d)) = discount r"
  "shipping_days (sales_row.extend r (sales_clean.fields a b c d)) = shipping_days r"
  "profit_margin_pct (sales_row.extend r (sales_clean.fields a b c d)) = profit_margin_pct r"
  "order_status (sales_row.extend r (sales_clean.fields a b c d)) = order_status r"
  "age (sales_row.extend r (sales_clean.fields a b c d)) = age r"
  "sales_others (sales_row.extend r (sales_clean.fields a b c d)) = sales_others r"
  by (simp_all add: sales_row.defs sales_clean.defs)

text \<open>What a run of \<^verbatim>\<open>clean_sales_fact\<close> that returns computed, row by row.\<close>

lemma clean_sales_fact_Inr:
  assumes "clean_sales_fact pd df = Inr out"
  defines "f \<equiv> filter (\<lambda>r. revenue_ok r \<and> quantity_ok r) (drop_duplicates df)"
  shows "length out = length f \<and>
         (\<forall>i<length f.
            revenue (out ! i) = revenue (f ! i) \<and>
            quantity (out ! i) = quantity (f ! i) \<and>
            sales_others (out ! i) = sales_others (f ! i) \<and>
            age (out ! i) = age (f ! i) \<and>
            discount (out ! i) = fillna_inplace pd (Some 0) (discount (f ! i)) \<and>
            shipping_days (out ! i) =
              fillna_inplace pd (median (map shipping_days f)) (shipping_days (f ! i)) \<and>
            profit_margin_pct (out ! i) =
              clip_upper (quantile (99 / 100) (dropna (map profit_margin_pct f)))
                (profit_margin_pct (f ! i)) \<and>
            order_status (out ! i) = strip_title (order_status (f ! i)) \<and>
            is_returned (out ! i) =
              (if strip_title (order_status (f ! i)) = Some ''Returned'' then 1 else 0) \<and>
            age_group (out ! i) =
              take_label age_bins age_labels False (map_option of_int (age (f ! i))))"
proof -
  from assms(1) obtain f' where f': "filter_rows df = Inr f'"
    and out': "add_derived (map standardize_text (cap_outliers (handle_nulls pd f'))) = Inr out"
    unfolding clean_sales_fact_def by (auto simp: bind_err_Inr_iff)
  have ff: "f' = f" using filter_rows_Inr [OF f'] by (simp add: f_def)
  define row where "row = (\<lambda>r :: 'a sales_row. standardize_text
       (r\<lparr>discount := fillna_inplace pd (Some 0) (discount r),
          shipping_days := fillna_inplace pd (median (map shipping_days f)) (shipping_days r),
          profit_margin_pct :=
            clip_upper (quantile (99 / 100) (dropna (map profit_margin_pct f)))
              (profit_margin_pct r)\<rparr>))"
  define derive where "derive = (\<lambda>r :: 'a sales_row. sales_row.extend r
                    (sales_clean.fields
                       (map_option (\<lambda>d. round1 (d * 100)) (discount r))
                       (take_label age_bins age_labels False (map_option of_int (age r)))
                       (if order_status r = Some ''Returned'' then 1 else 0)
                       (to_period_M (order_date r))))"
  have g: "map standardize_text (cap_outliers (handle_nulls pd f)) = map row f"
    by (simp add: cap_outliers_handle_nulls row_def)
  have "add_derived (map row f) = Inr (map derive (map row f))"
    unfolding add_derived_def cut_age int_col_def bind_err.simps
    by (simp only: map2_same3 derive_def)
  with out' have out: "out = map (\<lambda>r. derive (row r)) f"
    by (auto simp: ff g comp_def)
  have "\<forall>i<length f.
            revenue (out ! i) = revenue (f ! i) \<and>
            quantity (out ! i) = quantity (f ! i) \<and>
            sales_others (out ! i) = sales_others (f ! i) \<and>
            age (out ! i) = age (f ! i) \<and>
            discount (out ! i) = fillna_inplace pd (Some 0) (discount (f ! i)) \<and>
            shipping_days (out ! i) =
              fillna_inplace pd (median (map shipping_days f)) (shipping_days (f ! i)) \<and>
            profit_margin_pct (out ! i) =
              clip_upper (quantile (99 / 100) (dropna (map profit_margin_pct f)))
                (profit_margin_pct (f ! i)) \<and>
            order_status (out ! i) = strip_title (order_status (f ! i)) \<and>
            is_returned (out ! i) =
              (if strip_title (order_status (f ! i)) = Some ''Returned'' then 1 else 0) \<and>
            age_group (out ! i) =
              take_label age_bins age_labels False (map_option of_int (age (f ! i)))"
    by (simp add: out derive_def row_def standardize_text_def sales_clean_sel)
  moreover have "length out = length f" by (simp add: out)
  ultimately show ?thesis by blast
qed

text \<open>
  C2. Every row returned by \<^verbatim>\<open>clean_sales_fact\<close> has a revenue of at least 0 and a
  quantity above 0. The returned rows are, in order and one for one, the rows of the
  deduplicated input that pass both masks, with revenue, quantity and the untouched columns
  unchanged: a failing row is left out, not repaired, and a passing row is kept.
  Deduplication keeps exactly one copy of each distinct input row.
\<close>

theorem sales_rows_filtered_not_corrected:
  assumes "clean_sales_fact pd df = Inr out"
  shows "(\<forall>r\<in>set out. \<exists>v n. revenue r = Some v \<and> 0 \<le> v \<and> quantity r = Some n \<and> 0 < n) \<and>
         map (\<lambda>r. (revenue r, quantity r, sales_others r)) out =
           map (\<lambda>r. (revenue r, quantity r, sales_others r))
             (filter (\<lambda>r. revenue_ok r \<and> quantity_ok r) (drop_duplicates df)) \<and>
         set (drop_duplicates df) = set df \<and> distinct (drop_duplicates df)"
proof -
  define f where "f = filter (\<lambda>r. revenue_ok r \<and> quantity_ok r) (drop_duplicates df)"
  note run = clean_sales_fact_Inr [OF assms, folded f_def]
  from run have len: "length out = length f" by simp
  have same: "\<And>i. i < length f \<Longrightarrow> revenue (out ! i) = revenue (f ! i) \<and>
      quantity (out ! i) = quantity (f ! i) \<and> sales_others (out ! i) = sales_others (f ! i)"
    using run by simp
  have ok: "\<And>i. i < length f \<Longrightarrow> revenue_ok (f ! i) \<and> quantity_ok (f ! i)"
  proof -
    fix i assume "i < length f"
    then have "f ! i \<in> set f" by simp
    then show "revenue_ok (f ! i) \<and> quantity_ok (f ! i)" by (simp add: f_def)
  qed
  have 1: "\<forall>r\<in>set out. \<exists>v n. revenue r = Some v \<and> 0 \<le> v \<and> quantity r = Some n \<and> 0 < n"
  proof
    fix r assume "r \<in> set out"
    then obtain i where i: "i < length f" and r: "r = out ! i"
      using len by (metis in_set_conv_nth)
    from ok [OF i] same [OF i] show "\<exists>v n. revenue r = Some v \<and> 0 \<le> v \<and> quantity r = Some n \<and> 0 < n"
      by (auto simp: r revenue_ok_def quantity_ok_def split: option.splits)
  qed
  have 2: "map (\<lambda>r. (revenue r, quantity r, sales_others r)) out =
           map (\<lambda>r. (revenue r, quantity r, sales_others r)) f"
    using len same by (simp add: list_eq_iff_nth_eq)
  have 3: "set (drop_duplicates df) = set df \<and> distinct (drop_duplicates df)"
    by (simp add: drop_duplicates_def set_unique distinct_unique)
  from 1 2 3 show ?thesis unfolding f_def by blast
qed

text \<open>
  On the sample table of seven order lines, one is a duplicate, one has quantity -1, one
  has revenue -5 and one has no revenue: three rows remain.
\<close>

theorem sales_rows_filtered_not_corrected_witness:
  "clean_sales_fact Pandas2 sales_sample = Inr sales_sample_clean \<and>
   length sales_sample = 7 \<and>
   map (\<lambda>r. (revenue r, quantity r, sales_others r)) sales_sample_clean =
     [(Some 10, Some 2, ''O1''), (Some 0, Some 2, ''O3''), (Some 1, Some 2, ''O5'')]"
proof -
  have "map (\<lambda>r. (revenue r, quantity r, sales_others r)) sales_sample_clean =
     [(Some 10, Some 2, ''O1''), (Some 0, Some 2, ''O3''), (Some 1, Some 2, ''O5'')]"
    by (simp add: sales_sample_clean_def mk_clean_def)
  moreover have "length sales_sample = 7" by (simp add: sales_sample_def)
  ultimately show ?thesis
    using sales_rows_filtered_not_corrected [OF clean_sales_fact_sample] clean_sales_fact_sample
    by simp
qed

text \<open>
  C4, as claimed, fails: the first bin is not closed at zero. \<^verbatim>\<open>pd.cut\<close> is called without
  \<^verbatim>\<open>include_lowest\<close>, so its bins are all right-closed and left-open, and the first row of
  the cleaned sample table has age 0 and no age group.
\<close>

theorem age_zero_has_no_group:
  "clean_sales_fact Pandas2 sales_sample = Inr sales_sample_clean \<and>
   age (sales_sample_clean ! 0) = Some 0 \<and>
   age_group (sales_sample_clean ! 0) = None"
  using clean_sales_fact_sample by (simp add: sales_sample_clean_def mk_clean_def)

text \<open>
  C4, amended. Every row returned by \<^verbatim>\<open>clean_sales_fact\<close> has its age group assigned by
  the bins (0,25], (25,35], (35,45], (45,60], (60,100], labelled 18-25, 26-35, 36-45, 46-60
  and 60+: every age from 1 to 25 gets 18-25, and age 0, an age outside (0,100] and a null
  age get no group.
\<close>

theorem age_group_right_closed_bins:
  assumes "clean_sales_fact pd df = Inr out" and "r \<in> set out"
  shows "age_group r =
           (case age r of
              None \<Rightarrow> None
            | Some a \<Rightarrow>
                if 0 < a \<and> a \<le> 25 then Some ''18-25''
                else if 25 < a \<and> a \<le> 35 then Some ''26-35''
                else if 35 < a \<and> a \<le> 45 then Some ''36-45''
                else if 45 < a \<and> a \<le> 60 then Some ''46-60''
                else if 60 < a \<and> a \<le> 100 then Some ''60+''
                else None)"
proof -
  define f where "f = filter (\<lambda>r. revenue_ok r \<and> quantity_ok r) (drop_duplicates df)"
  note run = clean_sales_fact_Inr [OF assms(1), folded f_def]
  from run have len: "length out = length f" by simp
  from assms(2) obtain i where i: "i < length f" and r: "r = out ! i"
    using len by (metis in_set_conv_nth)
  from run i have a: "age (out ! i) = age (f ! i)"
    and g: "age_group (out ! i) =
              take_label age_bins age_labels False (map_option of_int (age (f ! i)))"
    by simp_all
  show ?thesis
  proof (cases "age (f ! i)")
    case None
    then show ?thesis using a g by (simp add: r take_label_def)
  next
    case (Some x)
    then show ?thesis using a g by (simp only: r age_label option.case option.map)
  qed
qed

text \<open>On the cleaned sample table: age 25 is in the first bin, age 0 and age 101 in none.\<close>

theorem age_group_right_closed_bins_witness:
  "clean_sales_fact Pandas2 sales_sample = Inr sales_sample_clean \<and>
   sales_sample_clean ! 1 \<in> set sales_sample_clean \<and>
   age (sales_sample_clean ! 1) = Some 25 \<and>
   age_group (sales_sample_clean ! 1) = Some ''18-25'' \<and>
   sales_sample_clean ! 2 \<in> set sales_sample_clean \<and>
   age (sales_sample_clean ! 2) = Some 101 \<and>
   age_group (sales_sample_clean ! 2) = None"
proof -
  have m: "sales_sample_clean ! 1 \<in> set sales_sample_clean"
    "sales_sample_clean ! 2 \<in> set sales_sample_clean"
    and a: "age (sales_sample_clean ! 1) = Some 25" "age (sales_sample_clean ! 2) = Some 101"
    by (simp_all add: sales_sample_clean_def mk_clean_def)
  from age_group_right_closed_bins [OF clean_sales_fact_sample m(1)]
       age_group_right_closed_bins [OF clean_sales_fact_sample m(2)]
       clean_sales_fact_sample m a
  show ?thesis by simp
qed

text \<open>
  C5. In every row returned by \<^verbatim>\<open>clean_sales_fact\<close> that has a profit margin, the margin
  is the smaller of the row's margin before clipping and the 99th percentile of the margins
  of the filtered rows (deduplicated, revenue and quantity masks applied), so it exceeds
  neither. A row without a margin stays without one.
\<close>

theorem margin_capped_at_p99:
  assumes "clean_sales_fact pd df = Inr out" and "i < length out"
    and "profit_margin_pct (out ! i) = Some v"
  defines "f \<equiv> filter (\<lambda>r. revenue_ok r \<and> quantity_ok r) (drop_duplicates df)"
  shows "\<exists>cap v0.
           quantile (99 / 100) (dropna (map profit_margin_pct f)) = Some cap \<and>
           i < length f \<and> profit_margin_pct (f ! i) = Some v0 \<and>
           v = min v0 cap \<and> v \<le> cap \<and> v \<le> v0"
proof -
  note run = clean_sales_fact_Inr [OF assms(1), folded f_def]
  from run assms(2) have i: "i < length f" by simp
  with run have clip: "profit_margin_pct (out ! i) =
      clip_upper (quantile (99 / 100) (dropna (map profit_margin_pct f)))
        (profit_margin_pct (f ! i))" by simp
  obtain v0 where v0: "profit_margin_pct (f ! i) = Some v0"
    using clip assms(3) by (cases "profit_margin_pct (f ! i)") auto
  have "Some v0 \<in> set (map profit_margin_pct f)"
    using i v0 by (metis length_map nth_map nth_mem)
  then have "dropna (map profit_margin_pct f) \<noteq> []"
    using set_dropna [of "map profit_margin_pct f"] by auto
  then obtain cap where cap: "quantile (99 / 100) (dropna (map profit_margin_pct f)) = Some cap"
    by (simp add: quantile_def)
  from clip assms(3) have "v = min v0 cap" by (simp add: cap v0)
  with cap i v0 show ?thesis by auto
qed

text \<open>
  On the sample table the filtered margins are 50 and 500 and one null; the 99th
  percentile is 495.5 and the margin 500 of the second kept row is clipped to it.
\<close>

theorem margin_capped_at_p99_witness:
  "clean_sales_fact Pandas2 sales_sample = Inr sales_sample_clean \<and>
   profit_margin_pct (sales_sample_clean ! 1) = Some (991 / 2) \<and>
   quantile (99 / 100) (dropna (map profit_margin_pct
      (filter (\<lambda>r. revenue_ok r \<and> quantity_ok r) (drop_duplicates sales_sample)))) =
     Some (991 / 2) \<and>
   profit_margin_pct
     (filter (\<lambda>r. revenue_ok r \<and> quantity_ok r) (drop_duplicates sales_sample) ! 1) = Some 500"
proof -
  have l: "1 < length sales_sample_clean"
    and v: "profit_margin_pct (sales_sample_clean ! 1) = Some (991 / 2)"
    by (simp_all add: sales_sample_clean_def mk_clean_def)
  have v0: "profit_margin_pct ([sales_sample ! 0, sales_sample ! 3, sales_sample ! 5] ! 1) = Some 500"
    by (simp add: sales_sample_def mk_sale_def)
  have q: "quantile (99 / 100) (dropna (map profit_margin_pct
      (filter (\<lambda>r. revenue_ok r \<and> quantity_ok r) (drop_duplicates sales_sample)))) =
     Some (991 / 2)"
    by (simp only: sample_filtered sample_p99)
  have v0': "profit_margin_pct
     (filter (\<lambda>r. revenue_ok r \<and> quantity_ok r) (drop_duplicates sales_sample) ! 1) = Some 500"
    by (simp only: sample_filtered v0)
  from margin_capped_at_p99 [OF clean_sales_fact_sample l v] clean_sales_fact_sample v q v0'
  show ?thesis by blast
qed

text \<open>
  On pandas 1.x and 2.x the fills reach the frame: in every returned row a null discount of
  the filtered row has become 0 and a null \<open>shipping_days\<close> has become the median of the
  \<open>shipping_days\<close> of the filtered rows (deduplicated, revenue and quantity masks applied,
  nothing filled yet); values that were present are unchanged.
\<close>

lemma fills_reach_frame_pandas2:
  assumes "clean_sales_fact Pandas2 df = Inr out" and "i < length out"
  defines "f \<equiv> filter (\<lambda>r. revenue_ok r \<and> quantity_ok r) (drop_duplicates df)"
  shows "i < length f \<and>
         discount (out ! i) = (case discount (f ! i) of None \<Rightarrow> Some 0 | Some d \<Rightarrow> Some d) \<and>
         shipping_days (out ! i) =
           (case shipping_days (f ! i) of
              None \<Rightarrow> median (map shipping_days f)
            | Some s \<Rightarrow> Some s)"
proof -
  note run = clean_sales_fact_Inr [OF assms(1), folded f_def]
  from run assms(2) have i: "i < length f" by simp
  with run have "discount (out ! i) = fillna_inplace Pandas2 (Some 0) (discount (f ! i))"
    and "shipping_days (out ! i) =
           fillna_inplace Pandas2 (median (map shipping_days f)) (shipping_days (f ! i))"
    by simp_all
  with i show ?thesis
    by (cases "discount (f ! i)"; cases "shipping_days (f ! i)") simp_all
qed

text \<open>
  On pandas 3 the fills are lost: every returned row has the discount and the
  \<open>shipping_days\<close> of its filtered row, null or not.
\<close>

lemma fills_lost_pandas3:
  assumes "clean_sales_fact Pandas3 df = Inr out" and "i < length out"
  defines "f \<equiv> filter (\<lambda>r. revenue_ok r \<and> quantity_ok r) (drop_duplicates df)"
  shows "i < length f \<and> discount (out ! i) = discount (f ! i) \<and>
         shipping_days (out ! i) = shipping_days (f ! i)"
proof -
  note run = clean_sales_fact_Inr [OF assms(1), folded f_def]
  from run assms(2) have i: "i < length f" by simp
  with run have "discount (out ! i) = fillna_inplace Pandas3 (Some 0) (discount (f ! i))"
    and "shipping_days (out ! i) =
           fillna_inplace Pandas3 (median (map shipping_days f)) (shipping_days (f ! i))"
    by simp_all
  with i show ?thesis by simp
qed

lemma clean_sales_fact_sample_pandas3:
  "clean_sales_fact Pandas3 sales_sample = Inr sales_sample_unfilled"
  unfolding sales_sample_def sales_sample_unfilled_def sales_sample_clean_def
    mk_sale_def mk_clean_def
  by code_simp

text \<open>
  C8. The claim is that every null discount becomes 0 and every null \<open>shipping_days\<close>
  becomes the median over the filtered rows. Step 3.4 of the cleaner means to do that, and
  on pandas 1.x and 2.x it does: on the sample table the first kept row, which had no
  discount, gets 0, and the second, which had no \<open>shipping_days\<close>, gets 3.5, the median of
  the kept rows. It fills through a chained in-place call on a selected column, though, and
  on pandas 3 that call changes a temporary object: run on the same table, the cleaner
  returns the first kept row still without a discount and the second still without
  \<open>shipping_days\<close>.
\<close>

theorem chained_fillna_lost_on_pandas3:
  "clean_sales_fact Pandas3 sales_sample = Inr sales_sample_unfilled \<and>
   discount (sales_sample_unfilled ! 0) = None \<and>
   shipping_days (sales_sample_unfilled ! 1) = None \<and>
   clean_sales_fact Pandas2 sales_sample = Inr sales_sample_clean \<and>
   discount (sales_sample_clean ! 0) = Some 0 \<and>
   shipping_days (sales_sample_clean ! 1) = Some (7 / 2)"
  using clean_sales_fact_sample_pandas3 clean_sales_fact_sample
  by (simp add: sales_sample_unfilled_def sales_sample_clean_def mk_clean_def)

text \<open>
  C9. In every row returned by \<^verbatim>\<open>clean_sales_fact\<close>, \<open>is_returned\<close> is 0 or 1, and it is 1
  exactly when the order status of the filtered row, stripped of surrounding whitespace and
  title-cased, is \<open>Returned\<close>, which is also the cleaned row's order status. The raw
  spellings \<open>RETURNED\<close> and \<open> returned \<close> normalise to \<open>Returned\<close>.
\<close>

theorem is_returned_iff_normalised_status:
  assumes "clean_sales_fact pd df = Inr out" and "i < length out"
  defines "f \<equiv> filter (\<lambda>r. revenue_ok r \<and> quantity_ok r) (drop_duplicates df)"
  shows "i < length f \<and>
         (is_returned (out ! i) = 0 \<or> is_returned (out ! i) = 1) \<and>
         (is_returned (out ! i) = 1 \<longleftrightarrow>
            map_option (\<lambda>s. title (strip s)) (order_status (f ! i)) = Some ''Returned'') \<and>
         order_status (out ! i) = map_option (\<lambda>s. title (strip s)) (order_status (f ! i)) \<and>
         title (strip ''RETURNED'') = ''Returned'' \<and>
         title (strip '' returned '') = ''Returned''"
proof -
  note run = clean_sales_fact_Inr [OF assms(1), folded f_def]
  from run assms(2) have i: "i < length f" by simp
  with run have "order_status (out ! i) = strip_title (order_status (f ! i))"
    and "is_returned (out ! i) =
              (if strip_title (order_status (f ! i)) = Some ''Returned'' then 1 else 0)"
    by simp_all
  with i returned_spellings show ?thesis
    by (simp add: strip_title_def comp_def)
qed

text \<open>
  On the sample table the kept rows had the raw statuses \<open>RETURNED\<close>, \<open> returned \<close> and
  \<open>Completed\<close>, and get \<open>is_returned\<close> 1, 1 and 0.
\<close>

theorem is_returned_iff_normalised_status_witness:
  "clean_sales_fact Pandas2 sales_sample = Inr sales_sample_clean \<and>
   order_status (sales_sample ! 0) = Some ''RETURNED'' \<and>
   order_status (sales_sample ! 3) = Some '' returned '' \<and>
   order_status (sales_sample ! 5) = Some ''Completed'' \<and>
   map is_returned sales_sample_clean = [1, 1, 0] \<and>
   map order_status sales_sample_clean =
     [Some ''Returned'', Some ''Returned'', Some ''Completed'']"
proof -
  have l: "0 < length sales_sample_clean"
    by (simp_all add: sales_sample_clean_def)
  have raw: "order_status (sales_sample ! 0) = Some ''RETURNED''"
    "order_status (sales_sample ! 3) = Some '' returned ''"
    "order_status (sales_sample ! 5) = Some ''Completed''"
    by (simp_all add: sales_sample_def mk_sale_def)
  have cleaned: "map is_returned sales_sample_clean = [1, 1, 0]"
    "map order_status sales_sample_clean =
       [Some ''Returned'', Some ''Returned'', Some ''Completed'']"
    by (simp_all add: sales_sample_clean_def mk_clean_def)
  from is_returned_iff_normalised_status [OF clean_sales_fact_sample l]
       clean_sales_fact_sample raw cleaned
  show ?thesis by simp
qed

end
